theory Spec2Isabelle
  imports Main "HOL-Library.AList" "HOL-Library.Char_ord" "HOL-Library.List_Lexorder"
begin

section \<open>Exceptions\<close>

text \<open>
  Every exception the modelled code or the library calls it makes can raise is a value.
  \<open>CalledProcessError\<close> carries the return code of the external process.
\<close>

datatype error =
    CalledProcessError int
  | FileNotFoundError
  | FileExistsError
  | NotADirectoryError
  | IsADirectoryError
  | SameFileError
  | ShutilError
  | IndexError
  | UnicodeDecodeError
  | OSError

section \<open>Paths (pathlib, POSIX flavour)\<close>

text \<open>
  A pure path is its root (\<open>''''\<close>, \<open>''/''\<close> or \<open>''//''\<close>) and its components. Parsing drops
  empty components and \<open>''.''\<close>; \<open>''..''\<close> is kept, as pathlib keeps it.
\<close>

type_synonym ppath = "string \<times> string list"

fun split_slash :: "string \<Rightarrow> string list" where
  "split_slash [] = [[]]"
| "split_slash (c # cs) =
     (if c = CHR ''/'' then [] # split_slash cs
      else (case split_slash cs of [] \<Rightarrow> [[c]] | x # xs \<Rightarrow> (c # x) # xs))"

definition path_root :: "string \<Rightarrow> string" where
  "path_root s =
     (if take 2 s = ''//'' \<and> take 3 s \<noteq> ''///'' then ''//''
      else if take 1 s = ''/'' then ''/'' else [])"

definition Path :: "string \<Rightarrow> ppath" where
  "Path s = (path_root s, filter (\<lambda>c. c \<noteq> [] \<and> c \<noteq> ''.'') (split_slash s))"

fun join :: "string \<Rightarrow> string list \<Rightarrow> string" where
  "join sep [] = []"
| "join sep [x] = x"
| "join sep (x # y # ys) = x @ sep @ join sep (y # ys)"

definition path_str :: "ppath \<Rightarrow> string" where
  "path_str p = (if fst p = [] \<and> snd p = [] then ''.'' else fst p @ join ''/'' (snd p))"

definition joinpath :: "ppath \<Rightarrow> string \<Rightarrow> ppath" where
  "joinpath p s = (if take 1 s = ''/'' then Path s else (fst p, snd p @ snd (Path s)))"

definition path_name :: "ppath \<Rightarrow> string" where
  "path_name p = (if snd p = [] then [] else last (snd p))"

definition parent :: "ppath \<Rightarrow> ppath" where
  "parent p = (fst p, butlast (snd p))"

section \<open>The file system\<close>

text \<open>
  The file system is a finite table from paths to nodes. A path with no component (the
  root, or the current directory) is always a directory. Symbolic links, permissions and
  the relation between relative and absolute paths are outside the model. A file's
  content is its bytes, which are also its text: every file is taken to decode in the
  locale's encoding, so reading one as text never raises \<open>UnicodeDecodeError\<close>. Text is
  read with universal newlines, as Python's \<open>open\<close> does by default. The size a
  directory reports is that of one block.
\<close>

datatype node = File string | Dir

type_synonym fs = "(ppath \<times> node) list"

definition exists :: "fs \<Rightarrow> ppath \<Rightarrow> bool" where
  "exists fs p = (snd p = [] \<or> map_of fs p \<noteq> None)"

definition is_dir :: "fs \<Rightarrow> ppath \<Rightarrow> bool" where
  "is_dir fs p = (snd p = [] \<or> map_of fs p = Some Dir)"

definition is_file :: "fs \<Rightarrow> ppath \<Rightarrow> bool" where
  "is_file fs p = (snd p \<noteq> [] \<and> (case map_of fs p of Some (File c) \<Rightarrow> True | _ \<Rightarrow> False))"

definition st_size :: "fs \<Rightarrow> ppath \<Rightarrow> nat" where
  "st_size fs p = (case map_of fs p of Some (File c) \<Rightarrow> length c | _ \<Rightarrow> 4096)"

definition ancestors :: "ppath \<Rightarrow> ppath list" where
  "ancestors p = map (\<lambda>n. (fst p, take n (snd p))) [1..<length (snd p)]"

definition mkdir_p :: "fs \<Rightarrow> ppath \<Rightarrow> error + fs" where
  "mkdir_p fs p =
     (if is_file fs p then Inl FileExistsError
      else if list_ex (is_file fs) (ancestors p) then Inl NotADirectoryError
      else Inr (foldl (\<lambda>t a. if is_dir t a then t else AList.update a Dir t) fs
                  (ancestors p @ [p])))"

definition write_text :: "fs \<Rightarrow> ppath \<Rightarrow> string \<Rightarrow> error + fs" where
  "write_text fs p s =
     (if is_dir fs p then Inl IsADirectoryError
      else if is_file fs (parent p) then Inl NotADirectoryError
      else if \<not> is_dir fs (parent p) then Inl FileNotFoundError
      else Inr (AList.update p (File s) fs))"

fun text_lines :: "string \<Rightarrow> string list" where
  "text_lines [] = []"
| "text_lines [c] = (if c = CHR 0x0A \<or> c = CHR 0x0D then [[]] else [[c]])"
| "text_lines (c # d # cs) =
     (if c = CHR 0x0D \<and> d = CHR 0x0A then [] # text_lines cs
      else if c = CHR 0x0A \<or> c = CHR 0x0D then [] # text_lines (d # cs)
      else (case text_lines (d # cs) of [] \<Rightarrow> [[c]] | l # ls \<Rightarrow> (c # l) # ls))"

definition open_lines :: "fs \<Rightarrow> ppath \<Rightarrow> error + string list" where
  "open_lines fs p =
     (if is_dir fs p then Inl IsADirectoryError
      else (case map_of fs p of
              Some (File c) \<Rightarrow> Inr (text_lines c)
            | _ \<Rightarrow> Inl FileNotFoundError))"

text \<open>
  \<open>shutil.move\<close>: into an existing directory the source keeps its name; otherwise the
  source is renamed to the destination, a regular file replacing a regular file, a
  directory taking its subtree along.
\<close>

definition is_under :: "ppath \<Rightarrow> ppath \<Rightarrow> bool" where
  "is_under d k = (fst k = fst d \<and> take (length (snd d)) (snd k) = snd d)"

definition relocate :: "ppath \<Rightarrow> ppath \<Rightarrow> fs \<Rightarrow> fs" where
  "relocate src dst fs =
     map (\<lambda>(k, v). if is_under src k
                    then ((fst dst, snd dst @ drop (length (snd src)) (snd k)), v)
                    else (k, v)) fs"

definition rename :: "fs \<Rightarrow> ppath \<Rightarrow> ppath \<Rightarrow> error + fs" where
  "rename fs src dst =
     (case map_of fs src of
        None \<Rightarrow> Inl FileNotFoundError
      | Some (File c) \<Rightarrow>
          if src = dst then Inr fs
          else if is_file fs (parent dst) then Inl NotADirectoryError
          else if \<not> is_dir fs (parent dst) then Inl FileNotFoundError
          else Inr (AList.update dst (File c) (AList.delete src fs))
      | Some Dir \<Rightarrow>
          if is_file fs dst then Inl FileExistsError
          else if is_under src dst then Inl ShutilError
          else (case mkdir_p fs (parent dst) of
                  Inl e \<Rightarrow> Inl e
                | Inr fs' \<Rightarrow> Inr (relocate src dst fs')))"

definition shutil_move :: "fs \<Rightarrow> ppath \<Rightarrow> ppath \<Rightarrow> error + fs" where
  "shutil_move fs src dst =
     (if is_dir fs dst then
        (if src = dst then Inr fs
         else (let real_dst = joinpath dst (path_name src)
               in if exists fs real_dst then Inl ShutilError else rename fs src real_dst))
      else rename fs src dst)"

section \<open>External processes\<close>

text \<open>
  The external process is a parameter of the model: given the command line and the file
  system it yields the OS error of a failed launch, or the process's return code together
  with whether what it printed decodes as text in the locale's encoding, and the file
  system the process leaves behind. The state threaded through the program is the file
  system together with the command lines logged by \<open>logger.info("Running: ...")\<close>,
  oldest first.
\<close>

type_synonym completed = "int \<times> bool"

type_synonym tool = "string list \<Rightarrow> fs \<Rightarrow> (error + completed) \<times> fs"

record world =
  fsys :: fs
  cmd_log :: "string list list"

section \<open>merge.py\<close>

record MergeReport =
  batch_count :: int
  conflict_snp_count :: int
  final_sample_count :: int
  final_variant_count :: int
  correction_applied :: bool
  output_prefix :: string

text \<open>
  \<open>_run_plink\<close> captures the output of the process as text: \<open>subprocess.run\<close> decodes it,
  and raises if it cannot, before it looks at the return code.
\<close>

definition run_plink :: "tool \<Rightarrow> string \<Rightarrow> string list \<Rightarrow> bool \<Rightarrow> world \<Rightarrow> (error + int) \<times> world" where
  "run_plink run plink_exec args check w =
     (let cmd = [plink_exec] @ args;
          w1 = w\<lparr>cmd_log := cmd_log w @ [cmd]\<rparr>
      in case run cmd (fsys w1) of
           (Inl e, fs') \<Rightarrow> (Inl e, w1\<lparr>fsys := fs'\<rparr>)
         | (Inr (rc, decodes), fs') \<Rightarrow>
             if \<not> decodes then (Inl UnicodeDecodeError, w1\<lparr>fsys := fs'\<rparr>)
             else if check \<and> rc \<noteq> 0 then (Inl (CalledProcessError rc), w1\<lparr>fsys := fs'\<rparr>)
             else (Inr rc, w1\<lparr>fsys := fs'\<rparr>))"

definition extract_args :: "string \<Rightarrow> string \<Rightarrow> string \<Rightarrow> string option \<Rightarrow> string list" where
  "extract_args bfile_prefix keep_list out exclude_snps =
     (let args = [''--bfile'', bfile_prefix, ''--keep'', keep_list, ''--make-bed'', ''--out'', out]
      in case exclude_snps of
           None \<Rightarrow> args
         | Some x \<Rightarrow> if x \<noteq> [] then args @ [''--exclude'', x] else args)"

definition extract_samples ::
  "tool \<Rightarrow> string \<Rightarrow> string \<Rightarrow> string \<Rightarrow> string \<Rightarrow> string option \<Rightarrow> world \<Rightarrow> (error + string) \<times> world" where
  "extract_samples run plink_exec bfile_prefix keep_list out exclude_snps w =
     (case run_plink run plink_exec (extract_args bfile_prefix keep_list out exclude_snps) True w of
        (Inl e, w') \<Rightarrow> (Inl e, w')
      | (Inr rc, w') \<Rightarrow> (Inr out, w'))"

text \<open>Step 1 of \<open>merge\<close>: the loop extracting the kept samples of each batch.\<close>

fun subset_loop ::
  "tool \<Rightarrow> string \<Rightarrow> ppath \<Rightarrow> string \<Rightarrow> string list \<Rightarrow> string list \<Rightarrow> world \<Rightarrow> (error + string list) \<times> world" where
  "subset_loop run plink_exec wd keep_list [] subset_prefixes w = (Inr subset_prefixes, w)"
| "subset_loop run plink_exec wd keep_list (bp # bps) subset_prefixes w =
     (let name = path_name (Path bp);
          out = path_str (joinpath wd (name @ ''_subset''))
      in case extract_samples run plink_exec bp keep_list out None w of
           (Inl e, w') \<Rightarrow> (Inl e, w')
         | (Inr r, w') \<Rightarrow> subset_loop run plink_exec wd keep_list bps (subset_prefixes @ [out]) w')"

text \<open>The loop of the correction branch: every batch again, excluding the listed SNPs.\<close>

fun corrected_loop ::
  "tool \<Rightarrow> string \<Rightarrow> ppath \<Rightarrow> string \<Rightarrow> string \<Rightarrow> string list \<Rightarrow> string list \<Rightarrow> world \<Rightarrow> (error + string list) \<times> world" where
  "corrected_loop run plink_exec wd keep_list missnp [] corrected_prefixes w = (Inr corrected_prefixes, w)"
| "corrected_loop run plink_exec wd keep_list missnp (bp # bps) corrected_prefixes w =
     (let name = path_name (Path bp);
          out = path_str (joinpath wd (name @ ''_corrected''))
      in case extract_samples run plink_exec bp keep_list out (Some missnp) w of
           (Inl e, w') \<Rightarrow> (Inl e, w')
         | (Inr r, w') \<Rightarrow>
             corrected_loop run plink_exec wd keep_list missnp bps (corrected_prefixes @ [out]) w')"

text \<open>The loop of the clean branch: the first attempt's files take the final name.\<close>

fun move_loop :: "string \<Rightarrow> string \<Rightarrow> string list \<Rightarrow> fs \<Rightarrow> error + fs" where
  "move_loop first_attempt out_prefix [] t = Inr t"
| "move_loop first_attempt out_prefix (ext # exts) t =
     (let src = Path (first_attempt @ ext);
          dst = Path (out_prefix @ ext)
      in if exists t src
         then (case shutil_move t src dst of
                 Inl e \<Rightarrow> Inl e
               | Inr t' \<Rightarrow> move_loop first_attempt out_prefix exts t')
         else move_loop first_attempt out_prefix exts t)"

definition merge_cmd_args :: "string \<Rightarrow> string \<Rightarrow> string \<Rightarrow> string list" where
  "merge_cmd_args base list_file out =
     [''--bfile'', base, ''--merge-list'', list_file, ''--make-bed'', ''--out'', out]"

definition list_text :: "string list \<Rightarrow> string" where
  "list_text prefixes = join [CHR 0x0A] (tl prefixes) @ [CHR 0x0A]"

text \<open>Step 4 of \<open>merge\<close>: the check for merge conflicts and its two branches.\<close>

definition check_conflicts ::
  "tool \<Rightarrow> string \<Rightarrow> string list \<Rightarrow> string \<Rightarrow> string \<Rightarrow> ppath \<Rightarrow> string \<Rightarrow> MergeReport \<Rightarrow> world
     \<Rightarrow> (error + MergeReport) \<times> world" where
  "check_conflicts run plink_exec batch_prefixes keep_list out_prefix wd first_attempt report w =
     (let missnp = Path (first_attempt @ ''-merge.missnp'')
      in if exists (fsys w) missnp \<and> st_size (fsys w) missnp > 0 then
           (case open_lines (fsys w) missnp of
              Inl e \<Rightarrow> (Inl e, w)
            | Inr ls \<Rightarrow>
               (let conflict_count = int (length ls);
                    report1 = report\<lparr>conflict_snp_count := conflict_count, correction_applied := True\<rparr>
                in case corrected_loop run plink_exec wd keep_list (path_str missnp) batch_prefixes [] w of
                     (Inl e, w1) \<Rightarrow> (Inl e, w1)
                   | (Inr corrected_prefixes, w1) \<Rightarrow>
                      (let corrected_list = joinpath wd ''merge_list_corrected.txt''
                       in case write_text (fsys w1) corrected_list (list_text corrected_prefixes) of
                            Inl e \<Rightarrow> (Inl e, w1)
                          | Inr t \<Rightarrow>
                             (case corrected_prefixes of
                                [] \<Rightarrow> (Inl IndexError, w1\<lparr>fsys := t\<rparr>)
                              | c0 # cs \<Rightarrow>
                                 (case run_plink run plink_exec
                                         (merge_cmd_args c0 (path_str corrected_list) out_prefix)
                                         True (w1\<lparr>fsys := t\<rparr>) of
                                    (Inl e, w2) \<Rightarrow> (Inl e, w2)
                                  | (Inr rc, w2) \<Rightarrow> (Inr report1, w2))))))
         else
           (case move_loop first_attempt out_prefix [''.bed'', ''.bim'', ''.fam'', ''.log''] (fsys w) of
              Inl e \<Rightarrow> (Inl e, w)
            | Inr t \<Rightarrow> (Inr report, w\<lparr>fsys := t\<rparr>)))"

text \<open>The end of \<open>merge\<close>: the counts read back from the written files, and step 5.\<close>

definition count_and_export ::
  "tool \<Rightarrow> string \<Rightarrow> string \<Rightarrow> bool \<Rightarrow> MergeReport \<Rightarrow> world \<Rightarrow> (error + MergeReport) \<times> world" where
  "count_and_export run plink_exec out_prefix convert_to_vcf report w =
     (let report1 = report\<lparr>output_prefix := out_prefix\<rparr>;
          fam = Path (out_prefix @ ''.fam'');
          bim = Path (out_prefix @ ''.bim'')
      in case (if exists (fsys w) fam then open_lines (fsys w) fam else Inr []) of
           Inl e \<Rightarrow> (Inl e, w)
         | Inr fam_lines \<Rightarrow>
            (let report2 = (if exists (fsys w) fam
                            then report1\<lparr>final_sample_count := int (length fam_lines)\<rparr>
                            else report1)
             in case (if exists (fsys w) bim then open_lines (fsys w) bim else Inr []) of
                  Inl e \<Rightarrow> (Inl e, w)
                | Inr bim_lines \<Rightarrow>
                   (let report3 = (if exists (fsys w) bim
                                   then report2\<lparr>final_variant_count := int (length bim_lines)\<rparr>
                                   else report2)
                    in if convert_to_vcf then
                         (case run_plink run plink_exec
                                 [''--bfile'', out_prefix, ''--recode'', ''vcf'', ''bgz'', ''--out'', out_prefix]
                                 True w of
                            (Inl e, w1) \<Rightarrow> (Inl e, w1)
                          | (Inr rc, w1) \<Rightarrow> (Inr report3, w1))
                       else (Inr report3, w))))"

definition merge ::
  "tool \<Rightarrow> string \<Rightarrow> string list \<Rightarrow> string \<Rightarrow> string \<Rightarrow> string \<Rightarrow> bool \<Rightarrow> world
     \<Rightarrow> (error + MergeReport) \<times> world" where
  "merge run plink_exec batch_prefixes keep_list out_prefix work_dir convert_to_vcf w =
     (let wd = Path work_dir
      in case mkdir_p (fsys w) wd of
           Inl e \<Rightarrow> (Inl e, w)
         | Inr t0 \<Rightarrow>
            (let report = \<lparr>batch_count = int (length batch_prefixes), conflict_snp_count = 0,
                           final_sample_count = 0, final_variant_count = 0,
                           correction_applied = False, output_prefix = []\<rparr>
             in case subset_loop run plink_exec wd keep_list batch_prefixes [] (w\<lparr>fsys := t0\<rparr>) of
                  (Inl e, w1) \<Rightarrow> (Inl e, w1)
                | (Inr subset_prefixes, w1) \<Rightarrow>
                   if length subset_prefixes < 2 then
                     (Inr (if subset_prefixes \<noteq> []
                           then report\<lparr>output_prefix := hd subset_prefixes\<rparr>
                           else report), w1)
                   else
                     (let merge_list = joinpath wd ''merge_list.txt''
                      in case write_text (fsys w1) merge_list (list_text subset_prefixes) of
                           Inl e \<Rightarrow> (Inl e, w1)
                         | Inr t1 \<Rightarrow>
                            (let first_attempt = path_str (joinpath wd ''merge_attempt'')
                             in case run_plink run plink_exec
                                       (merge_cmd_args (hd subset_prefixes) (path_str merge_list) first_attempt)
                                       False (w1\<lparr>fsys := t1\<rparr>) of
                                  (Inl e, w2) \<Rightarrow> (Inl e, w2)
                                | (Inr rc, w2) \<Rightarrow>
                                   (case check_conflicts run plink_exec batch_prefixes keep_list
                                           out_prefix wd first_attempt report w2 of
                                      (Inl e, w3) \<Rightarrow> (Inl e, w3)
                                    | (Inr report1, w3) \<Rightarrow>
                                       count_and_export run plink_exec out_prefix convert_to_vcf
                                         report1 w3)))))"

section \<open>The clock\<close>

text \<open>
  \<open>datetime.now()\<close> is a parameter: the calendar date the call reads. \<open>%Y\<close> is the
  year in decimal, as the C library prints it: four digits from the year 1000 on, fewer
  before (Python's datetime has no year above 9999). \<open>%m\<close> and \<open>%d\<close> are two digits.
\<close>

record date =
  year :: nat
  month :: nat
  day :: nat

definition digit :: "nat \<Rightarrow> char" where
  "digit n = char_of (48 + n mod 10)"

fun dec :: "nat \<Rightarrow> string" where
  "dec n = (if n < 10 then [digit n] else dec (n div 10) @ [digit n])"

declare dec.simps [simp del]

definition fmt_Y :: "date \<Rightarrow> string" where
  "fmt_Y d = dec (year d)"

definition fmt_m :: "date \<Rightarrow> string" where
  "fmt_m d = [digit (month d div 10), digit (month d)]"

definition fmt_d :: "date \<Rightarrow> string" where
  "fmt_d d = [digit (day d div 10), digit (day d)]"

section \<open>Directory listings and copies\<close>

definition iterdir :: "fs \<Rightarrow> ppath \<Rightarrow> error + ppath list" where
  "iterdir t d =
     (if is_dir t d then Inr (filter (\<lambda>k. snd k \<noteq> [] \<and> parent k = d) (remdups (map fst t)))
      else if exists t d then Inl NotADirectoryError
      else Inl FileNotFoundError)"

definition copy2 :: "fs \<Rightarrow> ppath \<Rightarrow> ppath \<Rightarrow> error + fs" where
  "copy2 t src dst =
     (let real_dst = (if is_dir t dst then joinpath dst (path_name src) else dst)
      in case map_of t src of
           None \<Rightarrow> Inl FileNotFoundError
         | Some n \<Rightarrow>
             if src = real_dst then Inl SameFileError
             else (case n of
                     Dir \<Rightarrow> Inl IsADirectoryError
                   | File c \<Rightarrow>
                       if is_dir t real_dst then Inl IsADirectoryError
                       else if is_file t (parent real_dst) then Inl NotADirectoryError
                       else if \<not> is_dir t (parent real_dst) then Inl FileNotFoundError
                       else Inr (AList.update real_dst (File c) t)))"

section \<open>transfer.py\<close>

record TransferReport =
  source_dir :: string
  destination_dir :: string
  file_count :: int
  total_bytes :: int
  verified :: bool
  "method" :: string

text \<open>
  \<open>_rsync\<close> runs \<open>subprocess.run(cmd, check=True)\<close> and captures nothing, so what the
  process prints is never decoded and only the return code decides.
\<close>

definition rsync :: "tool \<Rightarrow> ppath \<Rightarrow> ppath \<Rightarrow> string \<Rightarrow> string \<Rightarrow> world \<Rightarrow> (error + unit) \<times> world" where
  "rsync run src dest chmod_dirs chmod_files w =
     (let cmd = [''rsync'', ''-a'', ''--chmod='' @ chmod_dirs @ '','' @ chmod_files,
                 path_str src @ ''/'', path_str dest @ ''/''];
          w1 = w\<lparr>cmd_log := cmd_log w @ [cmd]\<rparr>
      in case run cmd (fsys w1) of
           (Inl e, t) \<Rightarrow> (Inl e, w1\<lparr>fsys := t\<rparr>)
         | (Inr (rc, decodes), t) \<Rightarrow>
             if rc \<noteq> 0 then (Inl (CalledProcessError rc), w1\<lparr>fsys := t\<rparr>)
             else (Inr (), w1\<lparr>fsys := t\<rparr>))"

fun copy_loop :: "ppath \<Rightarrow> ppath list \<Rightarrow> fs \<Rightarrow> (error + unit) \<times> fs" where
  "copy_loop dest [] t = (Inr (), t)"
| "copy_loop dest (fp # fps) t =
     (if is_file t fp
      then (case copy2 t fp (joinpath dest (path_name fp)) of
              Inl e \<Rightarrow> (Inl e, t)
            | Inr t' \<Rightarrow> copy_loop dest fps t')
      else copy_loop dest fps t)"

definition copy :: "ppath \<Rightarrow> ppath \<Rightarrow> world \<Rightarrow> (error + unit) \<times> world" where
  "copy src dest w =
     (case iterdir (fsys w) src of
        Inl e \<Rightarrow> (Inl e, w)
      | Inr entries \<Rightarrow> (case copy_loop dest entries (fsys w) of (r, t) \<Rightarrow> (r, w\<lparr>fsys := t\<rparr>)))"

definition transfer_files ::
  "tool \<Rightarrow> string \<Rightarrow> ppath \<Rightarrow> ppath \<Rightarrow> string \<Rightarrow> string \<Rightarrow> world \<Rightarrow> (error + unit) \<times> world" where
  "transfer_files run meth src dest chmod_dirs chmod_files w =
     (if meth = ''rsync'' then rsync run src dest chmod_dirs chmod_files w else copy src dest w)"

definition send ::
  "tool \<Rightarrow> date \<Rightarrow> string \<Rightarrow> string \<Rightarrow> string \<Rightarrow> string \<Rightarrow> string \<Rightarrow> string \<Rightarrow> world
     \<Rightarrow> (error + TransferReport) \<times> world" where
  "send run now src_dir dest_root proj meth chmod_dirs chmod_files w =
     (let src = Path src_dir
      in if \<not> is_dir (fsys w) src then (Inl NotADirectoryError, w)
         else
           (let datestamp = fmt_Y now @ fmt_m now @ fmt_d now;
                dest = joinpath (Path dest_root) (proj @ ''_Delivery_'' @ datestamp)
            in case mkdir_p (fsys w) dest of
                 Inl e \<Rightarrow> (Inl e, w)
               | Inr t0 \<Rightarrow>
                  (let report = \<lparr>source_dir = path_str src, destination_dir = path_str dest,
                                 file_count = 0, total_bytes = 0, verified = False, method = meth\<rparr>
                   in case transfer_files run meth src dest chmod_dirs chmod_files (w\<lparr>fsys := t0\<rparr>) of
                        (Inl e, w1) \<Rightarrow> (Inl e, w1)
                      | (Inr u, w1) \<Rightarrow>
                         (case iterdir (fsys w1) src of
                            Inl e \<Rightarrow> (Inl e, w1)
                          | Inr src_entries \<Rightarrow>
                             (case iterdir (fsys w1) dest of
                                Inl e \<Rightarrow> (Inl e, w1)
                              | Inr dst_entries \<Rightarrow>
                                 (let src_files = filter (is_file (fsys w1)) src_entries;
                                      dst_files = filter (is_file (fsys w1)) dst_entries
                                  in (Inr (report\<lparr>file_count := int (length dst_files),
                                                 total_bytes := int (sum_list (map (st_size (fsys w1)) dst_files)),
                                                 verified := (length src_files = length dst_files)\<rparr>),
                                      w1)))))))"

section \<open>manifest.py\<close>

record FileChecksum =
  filename :: string
  file_size :: int
  md5 :: string
  sha256 :: string

record DeliveryManifest =
  project_id :: string
  delivery_date :: string
  files :: "FileChecksum list"
  metadata :: "(string \<times> string) list"

text \<open>
  The digests of \<open>hashlib\<close> are parameters: functions from a file's bytes to the
  hexadecimal digest. Feeding the file in blocks of 8192 bytes hashes the whole content.
\<close>

definition compute_checksums ::
  "(string \<Rightarrow> string) \<Rightarrow> (string \<Rightarrow> string) \<Rightarrow> fs \<Rightarrow> string \<Rightarrow> error + FileChecksum" where
  "compute_checksums md5_hex sha256_hex t filepath =
     (let path = Path filepath
      in if is_dir t path then Inl IsADirectoryError
         else (case map_of t path of
                 Some (File c) \<Rightarrow>
                   Inr \<lparr>filename = path_name path, file_size = int (length c),
                        md5 = md5_hex c, sha256 = sha256_hex c\<rparr>
               | _ \<Rightarrow> Inl FileNotFoundError))"

fun str_in :: "string \<Rightarrow> string \<Rightarrow> bool" where
  "str_in pat [] = (pat = [])"
| "str_in pat (c # cs) = (take (length pat) (c # cs) = pat \<or> str_in pat cs)"

definition exclude_set :: "string list option \<Rightarrow> string set" where
  "exclude_set exclude_patterns =
     (case exclude_patterns of
        None \<Rightarrow> {''MANIFEST'', ''STATUS''}
      | Some ps \<Rightarrow> if ps \<noteq> [] then set ps else {''MANIFEST'', ''STATUS''})"

definition path_parts :: "ppath \<Rightarrow> string list" where
  "path_parts p = (if fst p = [] then snd p else fst p # snd p)"

fun generate_loop ::
  "(string \<Rightarrow> string) \<Rightarrow> (string \<Rightarrow> string) \<Rightarrow> string set \<Rightarrow> fs \<Rightarrow> ppath list \<Rightarrow> FileChecksum list
     \<Rightarrow> error + FileChecksum list" where
  "generate_loop md5_hex sha256_hex exclude t [] acc = Inr acc"
| "generate_loop md5_hex sha256_hex exclude t (fp # fps) acc =
     (if \<not> is_file t fp then generate_loop md5_hex sha256_hex exclude t fps acc
      else if (\<exists>pat\<in>exclude. str_in pat (path_name fp))
      then generate_loop md5_hex sha256_hex exclude t fps acc
      else (case compute_checksums md5_hex sha256_hex t (path_str fp) of
              Inl e \<Rightarrow> Inl e
            | Inr fc \<Rightarrow> generate_loop md5_hex sha256_hex exclude t fps (acc @ [fc])))"

definition generate ::
  "(string \<Rightarrow> string) \<Rightarrow> (string \<Rightarrow> string) \<Rightarrow> date \<Rightarrow> string \<Rightarrow> string \<Rightarrow> string list option \<Rightarrow> fs
     \<Rightarrow> error + DeliveryManifest" where
  "generate md5_hex sha256_hex now delivery_dir proj exclude_patterns t =
     (let exclude = exclude_set exclude_patterns;
          directory = Path delivery_dir
      in if \<not> is_dir t directory then Inl NotADirectoryError
         else
           (let manifest = \<lparr>project_id = proj,
                             delivery_date = fmt_Y now @ ''-'' @ fmt_m now @ ''-'' @ fmt_d now,
                             files = [], metadata = []\<rparr>
            in case iterdir t directory of
                 Inl e \<Rightarrow> Inl e
               | Inr entries \<Rightarrow>
                  (case generate_loop md5_hex sha256_hex exclude t (sort_key path_parts entries)
                          (files manifest) of
                     Inl e \<Rightarrow> Inl e
                   | Inr fcs \<Rightarrow> Inr (manifest\<lparr>files := fcs\<rparr>))))"

section \<open>Names for what the claims speak about\<close>

subsection \<open>The commands of a merge run\<close>

text \<open>
  The output prefixes and command lines of \<open>merge\<close>, the conflict file of the first
  attempt, and two recognisers of logged command lines: a merge command carries
  \<open>--merge-list\<close> as its third argument, a re-extraction carries \<open>--exclude\<close> as its
  eighth.
\<close>

definition subset_out :: "ppath \<Rightarrow> string \<Rightarrow> string" where
  "subset_out wd bp = path_str (joinpath wd (path_name (Path bp) @ ''_subset''))"

definition corrected_out :: "ppath \<Rightarrow> string \<Rightarrow> string" where
  "corrected_out wd bp = path_str (joinpath wd (path_name (Path bp) @ ''_corrected''))"

definition subset_cmd :: "string \<Rightarrow> ppath \<Rightarrow> string \<Rightarrow> string \<Rightarrow> string list" where
  "subset_cmd ex wd keep bp =
     [ex, ''--bfile'', bp, ''--keep'', keep, ''--make-bed'', ''--out'', subset_out wd bp]"

definition corrected_cmd :: "string \<Rightarrow> ppath \<Rightarrow> string \<Rightarrow> string \<Rightarrow> string \<Rightarrow> string list" where
  "corrected_cmd ex wd keep x bp =
     [ex, ''--bfile'', bp, ''--keep'', keep, ''--make-bed'', ''--out'', corrected_out wd bp,
      ''--exclude'', x]"

definition vcf_cmd :: "string \<Rightarrow> string \<Rightarrow> string list" where
  "vcf_cmd ex outp = [ex, ''--bfile'', outp, ''--recode'', ''vcf'', ''bgz'', ''--out'', outp]"

definition first_attempt_of :: "ppath \<Rightarrow> string" where
  "first_attempt_of wd = path_str (joinpath wd ''merge_attempt'')"

definition missnp_of :: "ppath \<Rightarrow> ppath" where
  "missnp_of wd = Path (first_attempt_of wd @ ''-merge.missnp'')"

definition is_merge_cmd :: "string list \<Rightarrow> bool" where
  "is_merge_cmd cmd = (length cmd = 8 \<and> cmd ! 3 = ''--merge-list'')"

definition is_exclude_cmd :: "string list \<Rightarrow> bool" where
  "is_exclude_cmd cmd = (length cmd = 10 \<and> cmd ! 8 = ''--exclude'')"

text \<open>
  The state in which step 4 of \<open>merge\<close> starts, for a run that gets that far: the working
  directory is made, every batch is subsetted, there are at least two subsets, the merge
  list is written and the first merge attempt has returned.
\<close>

definition after_first_attempt ::
  "tool \<Rightarrow> string \<Rightarrow> string list \<Rightarrow> string \<Rightarrow> string \<Rightarrow> world \<Rightarrow> world option" where
  "after_first_attempt run plink_exec batch_prefixes keep_list work_dir w =
     (let wd = Path work_dir
      in case mkdir_p (fsys w) wd of
           Inl e \<Rightarrow> None
         | Inr t0 \<Rightarrow>
            (case subset_loop run plink_exec wd keep_list batch_prefixes [] (w\<lparr>fsys := t0\<rparr>) of
               (Inl e, w1) \<Rightarrow> None
             | (Inr subset_prefixes, w1) \<Rightarrow>
                if length subset_prefixes < 2 then None
                else (case write_text (fsys w1) (joinpath wd ''merge_list.txt'')
                             (list_text subset_prefixes) of
                        Inl e \<Rightarrow> None
                      | Inr t1 \<Rightarrow>
                         (case run_plink run plink_exec
                                 (merge_cmd_args (hd subset_prefixes)
                                    (path_str (joinpath wd ''merge_list.txt''))
                                    (first_attempt_of wd))
                                 False (w1\<lparr>fsys := t1\<rparr>) of
                            (Inl e, w2) \<Rightarrow> None
                          | (Inr rc, w2) \<Rightarrow> Some w2))))"

subsection \<open>What the files of a dataset say\<close>

text \<open>
  The columns of a line are separated by blanks or tabs. The samples of a \<open>.fam\<close> file or
  of a keep-list are the first two columns of its lines (family and individual
  identifier); the markers of a dataset are the second column of the lines of its
  \<open>.bim\<close> file; the markers a conflict file lists are its lines.
\<close>

fun split_ws :: "string \<Rightarrow> string list" where
  "split_ws [] = [[]]"
| "split_ws (c # cs) =
     (if c = CHR '' '' \<or> c = CHR 0x09 then [] # split_ws cs
      else (case split_ws cs of [] \<Rightarrow> [[c]] | x # xs \<Rightarrow> (c # x) # xs))"

definition words :: "string \<Rightarrow> string list" where
  "words s = filter (\<lambda>t. t \<noteq> []) (split_ws s)"

definition sample_ids :: "fs \<Rightarrow> string \<Rightarrow> string list set" where
  "sample_ids t file =
     (case open_lines t (Path file) of
        Inr ls \<Rightarrow> set (map (\<lambda>l. take 2 (words l)) ls)
      | Inl e \<Rightarrow> {})"

definition line_ids :: "string \<Rightarrow> string set" where
  "line_ids s = set (concat (map (\<lambda>l. take 1 (drop 1 (words l))) (text_lines s)))"

definition bim_ids :: "fs \<Rightarrow> string \<Rightarrow> string set" where
  "bim_ids t prefix =
     (case open_lines t (Path (prefix @ ''.bim'')) of
        Inr ls \<Rightarrow> set (concat (map (\<lambda>l. take 1 (drop 1 (words l))) ls))
      | Inl e \<Rightarrow> {})"

definition listed :: "fs \<Rightarrow> string \<Rightarrow> string set" where
  "listed t x = (case open_lines t (Path x) of Inr ls \<Rightarrow> set ls | Inl e \<Rightarrow> {})"

subsection \<open>What the external tool promises\<close>

text \<open>
  The documentation of the external tool, as far as the correction round relies on it. A
  successful extraction with \<open>--exclude\<close> writes a dataset with none of the listed markers,
  adds a listed marker to no dataset, and leaves the list alone unless the list is one of
  its own output files; a successful merge puts into its output only markers of the base
  and of the datasets named in the merge list; the export does not add markers to the
  dataset it converts. A merge list holds one prefix per line, so a prefix must hold no
  newline character.
\<close>

definition nl_free :: "string \<Rightarrow> bool" where
  "nl_free s = (CHR 0x0A \<notin> set s \<and> CHR 0x0D \<notin> set s)"

definition make_bed_outputs :: "string \<Rightarrow> ppath list" where
  "make_bed_outputs out = map (\<lambda>ext. Path (out @ ext)) [''.bed'', ''.bim'', ''.fam'', ''.log'', ''.nosex'']"

definition honours_exclude :: "tool \<Rightarrow> bool" where
  "honours_exclude run =
     (\<forall>ex bp keep out x t d t'.
        run [ex, ''--bfile'', bp, ''--keep'', keep, ''--make-bed'', ''--out'', out, ''--exclude'', x] t
          = (Inr (0, d), t') \<longrightarrow>
            bim_ids t' out \<inter> listed t x = {}
          \<and> (\<forall>p. bim_ids t' p \<inter> listed t x \<subseteq> bim_ids t p)
          \<and> (Path x \<notin> set (make_bed_outputs out) \<longrightarrow> map_of t' (Path x) = map_of t (Path x)))"

definition merges_listed :: "tool \<Rightarrow> bool" where
  "merges_listed run =
     (\<forall>ex base l out t d t'.
        run [ex, ''--bfile'', base, ''--merge-list'', l, ''--make-bed'', ''--out'', out] t
          = (Inr (0, d), t') \<longrightarrow>
          bim_ids t' out \<subseteq> bim_ids t base \<union> (\<Union>p\<in>listed t l. bim_ids t p))"

definition export_keeps_bim :: "tool \<Rightarrow> bool" where
  "export_keeps_bim run =
     (\<forall>ex outp t r t'.
        run [ex, ''--bfile'', outp, ''--recode'', ''vcf'', ''bgz'', ''--out'', outp] t = (r, t') \<longrightarrow>
          bim_ids t' outp \<subseteq> bim_ids t outp)"

definition plink_contract :: "tool \<Rightarrow> bool" where
  "plink_contract run = (honours_exclude run \<and> merges_listed run \<and> export_keeps_bim run)"

subsection \<open>Directories\<close>

text \<open>
  The entries of a directory and those of them that are regular files; the destination
  of a transfer; the two places where \<open>shutil.copy2\<close> can put the copy of a file (under
  its name in the destination, or inside a directory of that name there); two file
  systems with the same directories, the second keeping every entry of the first; the
  record \<open>compute_checksums\<close> makes of a regular file. A path is well
  formed when parsing its string gives it back, as every path of a real file system
  does; a file system is well formed when all its paths are.
\<close>

definition entries_of :: "fs \<Rightarrow> ppath \<Rightarrow> ppath list" where
  "entries_of t d = filter (\<lambda>k. snd k \<noteq> [] \<and> parent k = d) (remdups (map fst t))"

definition top_files :: "fs \<Rightarrow> ppath \<Rightarrow> ppath list" where
  "top_files t d = filter (is_file t) (entries_of t d)"

definition dest_dir :: "string \<Rightarrow> string \<Rightarrow> date \<Rightarrow> ppath" where
  "dest_dir dest_root proj now =
     joinpath (Path dest_root) (proj @ ''_Delivery_'' @ fmt_Y now @ fmt_m now @ fmt_d now)"

definition copy_targets :: "ppath \<Rightarrow> ppath \<Rightarrow> ppath list" where
  "copy_targets dest fp =
     [joinpath dest (path_name fp), joinpath (joinpath dest (path_name fp)) (path_name fp)]"

definition same_kinds :: "fs \<Rightarrow> fs \<Rightarrow> bool" where
  "same_kinds t t' = (\<forall>p. (map_of t' p = Some Dir \<longleftrightarrow> map_of t p = Some Dir)
                          \<and> (map_of t p \<noteq> None \<longrightarrow> map_of t' p \<noteq> None))"

definition file_bytes :: "fs \<Rightarrow> ppath \<Rightarrow> string" where
  "file_bytes t p = (case map_of t p of Some (File c) \<Rightarrow> c | _ \<Rightarrow> [])"

definition checksum_of :: "(string \<Rightarrow> string) \<Rightarrow> (string \<Rightarrow> string) \<Rightarrow> fs \<Rightarrow> ppath \<Rightarrow> FileChecksum" where
  "checksum_of md5_hex sha256_hex t p =
     \<lparr>filename = path_name p, file_size = int (length (file_bytes t p)),
      md5 = md5_hex (file_bytes t p), sha256 = sha256_hex (file_bytes t p)\<rparr>"

definition wf_path :: "ppath \<Rightarrow> bool" where
  "wf_path p = (fst p \<in> {[], ''/'', ''//''}
                \<and> list_all (\<lambda>c. c \<noteq> [] \<and> c \<noteq> ''.'' \<and> CHR ''/'' \<notin> set c) (snd p))"

definition wf_fs :: "fs \<Rightarrow> bool" where
  "wf_fs t = list_all (\<lambda>k. Path (path_str k) = k) (map fst t)"

section \<open>Concrete inputs\<close>

text \<open>
  An external tool that always succeeds and writes nothing, one that does the same but
  prints bytes that are no text, and an empty start state.
\<close>

definition quiet_tool :: tool where
  "quiet_tool cmd t = (Inr (0, True), t)"

definition garbling_tool :: tool where
  "garbling_tool cmd t = (Inr (0, False), t)"

definition start_world :: world where
  "start_world = \<lparr>fsys = [], cmd_log = []\<rparr>"

definition put :: "string \<Rightarrow> string \<Rightarrow> fs \<Rightarrow> fs" where
  "put name content t = AList.update (Path name) (File content) t"

text \<open>
  A small stand-in for the genotype tool in a world of two markers. An extraction writes
  both markers, or with \<open>--exclude\<close> the marker \<open>rs1\<close> unless it is listed; a merge whose
  base dataset holds \<open>rs2\<close> reports a conflict on it (twice) and exits with status 3, and
  otherwise copies the base. The run of \<open>merge\<close> on two batches with this tool ends in
  \<open>demo_world\<close> with \<open>demo_report\<close>, and is in \<open>demo_attempt_world\<close> after the first attempt.
\<close>

definition demo_plink :: tool where
  "demo_plink cmd t =
     (if length cmd = 8 \<and> cmd ! 3 = ''--keep'' then
        (Inr (0, True), put (cmd ! 7 @ ''.bim'') ''1 rs1 0 100 A G\<newline>1 rs2 0 200 A G\<newline>'' t)
      else if length cmd = 10 \<and> cmd ! 3 = ''--keep'' \<and> cmd ! 8 = ''--exclude'' then
        (Inr (0, True), put (cmd ! 7 @ ''.bim'')
                  (if ''rs1'' \<in> listed t (cmd ! 9) then [] else ''1 rs1 0 100 A G\<newline>'') t)
      else if length cmd = 8 \<and> cmd ! 3 = ''--merge-list'' then
        (if ''rs2'' \<in> bim_ids t (cmd ! 2)
         then (Inr (3, True), put (cmd ! 7 @ ''-merge.missnp'') ''rs2\<newline>rs2\<newline>'' t)
         else (Inr (0, True), put (cmd ! 7 @ ''.bim'')
                        (case map_of t (Path (cmd ! 2 @ ''.bim'')) of Some (File c) \<Rightarrow> c | _ \<Rightarrow> []) t))
      else (Inr (0, True), t))"

definition demo_attempt_world :: world where
  "demo_attempt_world =
     \<lparr>fsys =
        [(([], [''work'']), Dir),
         (([], [''work'', ''b1_subset.bim'']), File ''1 rs1 0 100 A G\<newline>1 rs2 0 200 A G\<newline>''),
         (([], [''work'', ''b2_subset.bim'']), File ''1 rs1 0 100 A G\<newline>1 rs2 0 200 A G\<newline>''),
         (([], [''work'', ''merge_list.txt'']), File ''work/b2_subset\<newline>''),
         (([], [''work'', ''merge_attempt-merge.missnp'']), File ''rs2\<newline>rs2\<newline>'')],
      cmd_log =
        [[''plink'', ''--bfile'', ''data/b1'', ''--keep'', ''keep.txt'', ''--make-bed'', ''--out'',
          ''work/b1_subset''],
         [''plink'', ''--bfile'', ''data/b2'', ''--keep'', ''keep.txt'', ''--make-bed'', ''--out'',
          ''work/b2_subset''],
         [''plink'', ''--bfile'', ''work/b1_subset'', ''--merge-list'', ''work/merge_list.txt'',
          ''--make-bed'', ''--out'', ''work/merge_attempt'']]\<rparr>"

definition demo_report :: MergeReport where
  "demo_report = \<lparr>batch_count = 2, conflict_snp_count = 2, final_sample_count = 0,
         final_variant_count = 1, correction_applied = True,
         output_prefix = ''out/final''\<rparr>"

definition demo_world :: world where
  "demo_world = \<lparr>fsys =
     [(([], [''work'']), Dir),
      (([], [''work'', ''b1_subset.bim'']),
       File ''1 rs1 0 100 A G\<newline>1 rs2 0 200 A G\<newline>''),
      (([], [''work'', ''b2_subset.bim'']),
       File ''1 rs1 0 100 A G\<newline>1 rs2 0 200 A G\<newline>''),
      (([], [''work'', ''merge_list.txt'']), File ''work/b2_subset\<newline>''),
      (([], [''work'', ''merge_attempt-merge.missnp'']), File ''rs2\<newline>rs2\<newline>''),
      (([], [''work'', ''b1_corrected.bim'']), File ''1 rs1 0 100 A G\<newline>''),
      (([], [''work'', ''b2_corrected.bim'']), File ''1 rs1 0 100 A G\<newline>''),
      (([], [''work'', ''merge_list_corrected.txt'']),
       File ''work/b2_corrected\<newline>''),
      (([], [''out'', ''final.bim'']), File ''1 rs1 0 100 A G\<newline>'')],
     cmd_log =
       [[''plink'', ''--bfile'', ''data/b1'', ''--keep'', ''keep.txt'',
         ''--make-bed'', ''--out'', ''work/b1_subset''],
        [''plink'', ''--bfile'', ''data/b2'', ''--keep'', ''keep.txt'',
         ''--make-bed'', ''--out'', ''work/b2_subset''],
        [''plink'', ''--bfile'', ''work/b1_subset'', ''--merge-list'',
         ''work/merge_list.txt'', ''--make-bed'', ''--out'',
         ''work/merge_attempt''],
        [''plink'', ''--bfile'', ''data/b1'', ''--keep'', ''keep.txt'',
         ''--make-bed'', ''--out'', ''work/b1_corrected'', ''--exclude'',
         ''work/merge_attempt-merge.missnp''],
        [''plink'', ''--bfile'', ''data/b2'', ''--keep'', ''keep.txt'',
         ''--make-bed'', ''--out'', ''work/b2_corrected'', ''--exclude'',
         ''work/merge_attempt-merge.missnp''],
        [''plink'', ''--bfile'', ''work/b1_corrected'', ''--merge-list'',
         ''work/merge_list_corrected.txt'', ''--make-bed'', ''--out'',
         ''out/final''],
        [''plink'', ''--bfile'', ''out/final'', ''--recode'', ''vcf'',
         ''bgz'', ''--out'', ''out/final'']]\<rparr>"

text \<open>
  A tool that keeps the samples of the \<open>.fam\<close> file named in the keep-list; when strict it
  exits with status 11 if none is left, otherwise it writes the empty selection. The batch
  and the keep-list of \<open>disjoint_world\<close> have no sample in common.
\<close>

definition keep_tool :: "bool \<Rightarrow> tool" where
  "keep_tool strict cmd t =
     (if length cmd \<ge> 8 \<and> cmd ! 3 = ''--keep'' then
        (case (open_lines t (Path (cmd ! 2 @ ''.fam'')), open_lines t (Path (cmd ! 4))) of
           (Inr fam, Inr keep) \<Rightarrow>
             (let kept = filter (\<lambda>l. take 2 (words l) \<in> set (map (\<lambda>k. take 2 (words k)) keep)) fam
              in if strict \<and> kept = [] then (Inr (11, True), t)
                 else (Inr (0, True), put (cmd ! 7 @ ''.fam'') (concat (map (\<lambda>l. l @ [CHR 0x0A]) kept)) t))
         | _ \<Rightarrow> (Inr (2, True), t))
      else (Inr (0, True), t))"

definition disjoint_world :: world where
  "disjoint_world =
     \<lparr>fsys = [(Path ''data'', Dir),
              (Path ''data/b1.fam'', File ''F1 S1 0 0 1 -9\<newline>F2 S2 0 0 2 -9\<newline>''),
              (Path ''keep.txt'', File ''F8 S8\<newline>F9 S9\<newline>''),
              (Path ''work'', Dir)],
      cmd_log = []\<rparr>"

text \<open>
  A delivery directory with a data file, two reserved files and a subdirectory, and a
  staging area whose dated directory already holds a stale file; \<open>copied_world\<close> and
  \<open>copied_report\<close> are the result of sending it by copy. Two toy digests, and the
  manifests of the delivery directory with the default tokens and with the token \<open>vcf\<close>.
\<close>

definition today :: date where
  "today = \<lparr>year = 2026, month = 11, day = 4\<rparr>"

definition delivery_world :: world where
  "delivery_world =
     \<lparr>fsys = [(Path ''delivery'', Dir),
              (Path ''delivery/final.vcf.gz'', File ''vcf''),
              (Path ''delivery/MANIFEST.tsv'', File ''m''),
              (Path ''delivery/STATUS_SUMMARY.tsv'', File ''status''),
              (Path ''delivery/logs'', Dir),
              (Path ''delivery/logs/run.log'', File ''log''),
              (Path ''staging'', Dir),
              (Path ''staging/NBR030_Delivery_20261104'', Dir),
              (Path ''staging/NBR030_Delivery_20261104/old.txt'', File ''stale'')],
      cmd_log = []\<rparr>"

definition copied_world :: world where
  "copied_world =
     \<lparr>fsys = [(Path ''delivery'', Dir),
              (Path ''delivery/final.vcf.gz'', File ''vcf''),
              (Path ''delivery/MANIFEST.tsv'', File ''m''),
              (Path ''delivery/STATUS_SUMMARY.tsv'', File ''status''),
              (Path ''delivery/logs'', Dir),
              (Path ''delivery/logs/run.log'', File ''log''),
              (Path ''staging'', Dir),
              (Path ''staging/NBR030_Delivery_20261104'', Dir),
              (Path ''staging/NBR030_Delivery_20261104/old.txt'', File ''stale''),
              (Path ''staging/NBR030_Delivery_20261104/final.vcf.gz'', File ''vcf''),
              (Path ''staging/NBR030_Delivery_20261104/MANIFEST.tsv'', File ''m''),
              (Path ''staging/NBR030_Delivery_20261104/STATUS_SUMMARY.tsv'', File ''status'')],
      cmd_log = []\<rparr>"

definition copied_report :: TransferReport where
  "copied_report =
     \<lparr>source_dir = ''delivery'', destination_dir = ''staging/NBR030_Delivery_20261104'',
      file_count = 4, total_bytes = 15, verified = False, method = ''copy''\<rparr>"

definition toy_md5 :: "string \<Rightarrow> string" where
  "toy_md5 c = ''md5:'' @ c"

definition toy_sha256 :: "string \<Rightarrow> string" where
  "toy_sha256 c = ''sha256:'' @ c"

definition vcf_manifest :: DeliveryManifest where
  "vcf_manifest =
     \<lparr>project_id = ''NBR030'', delivery_date = ''2026-11-04'',
      files = [\<lparr>filename = ''MANIFEST.tsv'', file_size = 1, md5 = ''md5:m'', sha256 = ''sha256:m''\<rparr>,
               \<lparr>filename = ''STATUS_SUMMARY.tsv'', file_size = 6, md5 = ''md5:status'',
                sha256 = ''sha256:status''\<rparr>],
      metadata = []\<rparr>"

definition demo_manifest :: DeliveryManifest where
  "demo_manifest =
     \<lparr>project_id = ''NBR030'', delivery_date = ''2026-11-04'',
      files = [\<lparr>filename = ''final.vcf.gz'', file_size = 3, md5 = ''md5:vcf'', sha256 = ''sha256:vcf''\<rparr>],
      metadata = []\<rparr>"

section \<open>Paths\<close>

lemma split_slash_not_Nil: "split_slash s \<noteq> []"
  by (induction s) (auto split: list.splits)

lemma split_slash_no_slash: "CHR ''/'' \<notin> set s \<Longrightarrow> split_slash s = [s]"
  by (induction s) auto

lemma split_slash_components: "c \<in> set (split_slash s) \<Longrightarrow> CHR ''/'' \<notin> set c"
proof (induction s arbitrary: c)
  case Nil
  then show ?case by simp
next
  case (Cons a s)
  then show ?case
    using split_slash_not_Nil [of s]
    by (cases "split_slash s") (auto split: if_splits)
qed

lemma split_slash_chars: "c \<in> set (split_slash s) \<Longrightarrow> set c \<subseteq> set s"
proof (induction s arbitrary: c)
  case Nil
  then show ?case by simp
next
  case (Cons a s)
  obtain x xs where sp: "split_slash s = x # xs"
    using split_slash_not_Nil [of s] by (cases "split_slash s") auto
  have "set x \<subseteq> set s" "\<And>d. d \<in> set xs \<Longrightarrow> set d \<subseteq> set s"
    using Cons.IH sp by simp_all
  then show ?case
    using Cons.prems sp by (fastforce split: if_splits)
qed

lemma split_slash_append_slash:
  "CHR ''/'' \<notin> set a \<Longrightarrow> split_slash (a @ CHR ''/'' # b) = a # split_slash b"
  by (induction a) auto

lemma split_slash_append:
  "CHR ''/'' \<notin> set e \<Longrightarrow> split_slash (s @ e) = butlast (split_slash s) @ [last (split_slash s) @ e]"
proof (induction s)
  case Nil
  then show ?case by (simp add: split_slash_no_slash)
next
  case (Cons a s)
  then show ?case
    using split_slash_not_Nil [of s] split_slash_not_Nil [of "s @ e"]
    by (cases "split_slash s"; cases "split_slash (s @ e)") (auto split: if_splits)
qed

lemma join_not_Nil: "ps \<noteq> [] \<Longrightarrow> hd ps \<noteq> [] \<Longrightarrow> join sep ps \<noteq> []"
  by (induction sep ps rule: join.induct) auto

lemma join_head: "join sep (x # xs) = x @ (if xs = [] then [] else sep @ join sep xs)"
  by (cases xs) auto

lemma join_chars: "set (join sep ps) \<subseteq> set sep \<union> \<Union> (set ` set ps)"
  by (induction sep ps rule: join.induct) auto

lemma path_str_Path_not_Nil: "path_str (Path s) \<noteq> []"
proof -
  let ?ps = "filter (\<lambda>c. c \<noteq> [] \<and> c \<noteq> ''.'') (split_slash s)"
  have "?ps \<noteq> [] \<Longrightarrow> hd ?ps \<noteq> []"
    using hd_in_set [of ?ps] by auto
  then show ?thesis
    using join_not_Nil [of ?ps "''/''"] by (auto simp add: path_str_def Path_def)
qed

lemma wf_path_Path: "wf_path (Path s)"
  using split_slash_components [of _ s]
  by (auto simp add: wf_path_def Path_def path_root_def list_all_iff)

lemma wf_path_joinpath: "wf_path p \<Longrightarrow> wf_path (joinpath p s)"
  using wf_path_Path [of s]
  by (auto simp add: joinpath_def wf_path_def)

lemma split_slash_join:
  "list_all (\<lambda>c. CHR ''/'' \<notin> set c) ps \<Longrightarrow> ps \<noteq> [] \<Longrightarrow> split_slash (join ''/'' ps) = ps"
proof (induction "''/''" ps rule: join.induct)
  case 1
  then show ?case by simp
next
  case (2 x)
  then show ?case by (simp add: split_slash_no_slash)
next
  case (3 x y ys)
  then show ?case using split_slash_append_slash [of x "join ''/'' (y # ys)"] by simp
qed

lemma Path_path_str:
  assumes "wf_path p"
  shows "Path (path_str p) = p"
proof (cases "snd p")
  case Nil
  then show ?thesis
    using assms by (cases p) (auto simp add: wf_path_def path_str_def Path_def path_root_def)
next
  case (Cons x xs)
  obtain r where p: "p = (r, x # xs)" using Cons by (cases p) auto
  have ok: "list_all (\<lambda>c. CHR ''/'' \<notin> set c) (x # xs)"
           "filter (\<lambda>c. c \<noteq> [] \<and> c \<noteq> ''.'') (x # xs) = x # xs"
    using assms by (auto simp add: wf_path_def p list_all_iff filter_id_conv)
  have sp: "split_slash (join ''/'' (x # xs)) = x # xs"
    using split_slash_join [OF ok(1)] by simp
  obtain h t where x: "x = h # t" "h \<noteq> CHR ''/''"
    using assms by (cases x) (auto simp add: wf_path_def p)
  have j: "join ''/'' (x # xs) = h # (t @ (if xs = [] then [] else ''/'' @ join ''/'' xs))"
    by (simp add: join_head x)
  have r: "r = [] \<or> r = ''/'' \<or> r = ''//''"
    using assms by (simp add: wf_path_def p)
  have root: "path_root (r @ join ''/'' (x # xs)) = r"
    using r x(2) unfolding j by (auto simp add: path_root_def)
  have parts: "filter (\<lambda>c. c \<noteq> [] \<and> c \<noteq> ''.'') (split_slash (r @ join ''/'' (x # xs))) = x # xs"
    using r sp ok(2) by auto
  show ?thesis
    using root parts by (simp add: p path_str_def Path_def)
qed

lemma path_name_Path_append:
  assumes "CHR ''/'' \<notin> set e" and "2 \<le> length e"
  shows "path_name (Path (s @ e)) = last (split_slash s) @ e"
    and "snd (Path (s @ e)) \<noteq> []"
proof -
  let ?n = "last (split_slash s) @ e"
  have n: "?n \<noteq> []" "?n \<noteq> ''.''"
    using assms(2) by (auto simp add: append_eq_Cons_conv)
  have "split_slash (s @ e) = butlast (split_slash s) @ [?n]"
    by (rule split_slash_append [OF assms(1)])
  then have f: "filter (\<lambda>c. c \<noteq> [] \<and> c \<noteq> ''.'') (split_slash (s @ e))
      = filter (\<lambda>c. c \<noteq> [] \<and> c \<noteq> ''.'') (butlast (split_slash s)) @ [?n]"
    using n by simp
  show "path_name (Path (s @ e)) = ?n" "snd (Path (s @ e)) \<noteq> []"
    by (simp_all add: path_name_def Path_def f)
qed

lemma path_root_chars: "set (path_root s) \<subseteq> {CHR ''/''}"
  by (auto simp add: path_root_def)

lemma Path_chars: "c \<in> set (snd (Path s)) \<Longrightarrow> set c \<subseteq> set s"
  using split_slash_chars [of c s] by (auto simp add: Path_def)

lemma path_name_chars: "set (path_name (Path s)) \<subseteq> set s"
proof (cases "snd (Path s) = []")
  case True
  then show ?thesis by (simp add: path_name_def)
next
  case False
  then have "last (snd (Path s)) \<in> set (snd (Path s))" by simp
  then show ?thesis using Path_chars False by (simp add: path_name_def)
qed

lemma path_str_chars:
  "set (path_str p) \<subseteq> {CHR ''.'', CHR ''/''} \<union> set (fst p) \<union> \<Union> (set ` set (snd p))"
  using join_chars [of "''/''" "snd p"] by (auto simp add: path_str_def)

lemma joinpath_chars:
  "\<Union> (set ` set (snd (joinpath p s))) \<subseteq> \<Union> (set ` set (snd p)) \<union> set s"
  "set (fst (joinpath p s)) \<subseteq> set (fst p) \<union> {CHR ''/''}"
  using Path_chars [of _ s] path_root_chars [of s]
  by (auto simp add: joinpath_def) (auto simp add: Path_def)

section \<open>Text files\<close>

lemma text_lines_line:
  "nl_free a \<Longrightarrow> text_lines (a @ CHR 0x0A # rest) = a # text_lines rest"
proof (induction a)
  case Nil
  then show ?case by (cases rest) auto
next
  case (Cons c a)
  then obtain d cs where dc: "a @ CHR 0x0A # rest = d # cs"
    by (cases "a @ CHR 0x0A # rest") auto
  have "text_lines (d # cs) = a # text_lines rest"
    using Cons dc by (simp add: nl_free_def)
  then show ?case
    using Cons.prems dc by (auto simp add: nl_free_def)
qed

lemma text_lines_list_text:
  "ps \<noteq> [] \<Longrightarrow> list_all nl_free ps \<Longrightarrow> text_lines (join [CHR 0x0A] ps @ [CHR 0x0A]) = ps"
proof (induction "[CHR 0x0A]" ps rule: join.induct)
  case 1
  then show ?case by simp
next
  case (2 x)
  then show ?case using text_lines_line [of x "[]"] by simp
next
  case (3 x y ys)
  then show ?case
    using text_lines_line [of x "join [CHR 0x0A] (y # ys) @ [CHR 0x0A]"] by simp
qed

section \<open>The sample subsetter\<close>

lemma run_plink_log:
  "run_plink run ex args chk w = (r, w') \<Longrightarrow> cmd_log w' = cmd_log w @ [ex # args]"
  by (auto simp add: run_plink_def Let_def split: prod.splits sum.splits if_splits)

lemma run_plink_checked:
  "run_plink run ex args True w = (Inr rc, w') \<Longrightarrow> run (ex # args) (fsys w) = (Inr (0, True), fsys w')"
  by (auto simp add: run_plink_def Let_def split: prod.splits sum.splits if_splits)

lemma extract_samples_log:
  "extract_samples run ex bp keep out excl w = (r, w')
     \<Longrightarrow> cmd_log w' = cmd_log w @ [ex # extract_args bp keep out excl]"
  by (auto simp add: extract_samples_def split: prod.splits sum.splits dest: run_plink_log)

lemma extract_samples_Inr:
  "extract_samples run ex bp keep out excl w = (Inr r, w') \<Longrightarrow> r = out"
  by (simp add: extract_samples_def split: prod.splits sum.splits)

lemma extract_samples_ran:
  "extract_samples run ex bp keep out excl w = (Inr r, w')
     \<Longrightarrow> run (ex # extract_args bp keep out excl) (fsys w) = (Inr (0, True), fsys w')"
  by (auto simp add: extract_samples_def split: prod.splits sum.splits dest: run_plink_checked)

lemma extract_args_None:
  "ex # extract_args bp keep (subset_out wd bp) None = subset_cmd ex wd keep bp"
  by (simp add: extract_args_def subset_cmd_def)

lemma extract_args_Some:
  "x \<noteq> [] \<Longrightarrow> ex # extract_args bp keep (corrected_out wd bp) (Some x) = corrected_cmd ex wd keep x bp"
  by (simp add: extract_args_def corrected_cmd_def)

text \<open>
  C2 (amended): \<open>extract_samples\<close> makes no check of the sample intersection. It fails
  exactly when the external tool cannot be started (with the launch error), when what the
  tool printed cannot be decoded as text (with \<open>UnicodeDecodeError\<close>, whatever the exit
  status), or when the tool exits with a nonzero status (with \<open>CalledProcessError\<close>); in
  every other case it returns the output prefix.
\<close>

theorem extract_samples_outcome:
  "fst (extract_samples run plink_exec bfile_prefix keep_list out exclude_snps w) =
     (case fst (run (plink_exec # extract_args bfile_prefix keep_list out exclude_snps) (fsys w)) of
        Inl e \<Rightarrow> Inl e
      | Inr (rc, decodes) \<Rightarrow>
          if \<not> decodes then Inl UnicodeDecodeError
          else if rc = 0 then Inr out
          else Inl (CalledProcessError rc))"
  by (auto simp add: extract_samples_def run_plink_def Let_def split: sum.splits prod.splits)

theorem extract_samples_outcome_witness:
  "fst (keep_tool True (''plink'' # extract_args ''data/b1'' ''keep.txt'' ''work/b1_subset'' None)
          (fsys disjoint_world)) = Inr (11, True)
   \<and> fst (extract_samples (keep_tool True) ''plink'' ''data/b1'' ''keep.txt'' ''work/b1_subset'' None
            disjoint_world) = Inl (CalledProcessError 11)
   \<and> fst (garbling_tool (''plink'' # extract_args ''data/b1'' ''keep.txt'' ''work/b1_subset'' None)
            (fsys disjoint_world)) = Inr (0, False)
   \<and> fst (extract_samples garbling_tool ''plink'' ''data/b1'' ''keep.txt'' ''work/b1_subset'' None
            disjoint_world) = Inl UnicodeDecodeError"
proof -
  have r: "fst (keep_tool True (''plink'' # extract_args ''data/b1'' ''keep.txt'' ''work/b1_subset'' None)
          (fsys disjoint_world)) = Inr (11, True)"
    by code_simp
  have g: "fst (garbling_tool (''plink'' # extract_args ''data/b1'' ''keep.txt'' ''work/b1_subset'' None)
            (fsys disjoint_world)) = Inr (0, False)"
    by (simp add: garbling_tool_def)
  show ?thesis
    using extract_samples_outcome [of "keep_tool True" "''plink''" "''data/b1''" "''keep.txt''"
        "''work/b1_subset''" None disjoint_world]
      extract_samples_outcome [of garbling_tool "''plink''" "''data/b1''" "''keep.txt''"
        "''work/b1_subset''" None disjoint_world] r g
    by simp
qed

text \<open>
  C2 as stated fails: with a tool that accepts an empty selection, a batch and a keep-list
  with no sample in common give a normal return and a dataset of zero samples.
\<close>

theorem extract_samples_empty_intersection_counterexample:
  "sample_ids (fsys disjoint_world) ''data/b1.fam'' \<inter> sample_ids (fsys disjoint_world) ''keep.txt'' = {}
   \<and> fst (extract_samples (keep_tool False) ''plink'' ''data/b1'' ''keep.txt'' ''work/b1_subset'' None
            disjoint_world) = Inr ''work/b1_subset''
   \<and> open_lines (fsys (snd (extract_samples (keep_tool False) ''plink'' ''data/b1'' ''keep.txt''
            ''work/b1_subset'' None disjoint_world))) (Path ''work/b1_subset.fam'') = Inr []"
  by code_simp

section \<open>The command log of a run\<close>

lemma subset_loop_log:
  "subset_loop run ex wd keep bps acc w = (r, w')
     \<Longrightarrow> \<exists>k\<le>length bps. cmd_log w' = cmd_log w @ map (subset_cmd ex wd keep) (take k bps)"
proof (induction bps arbitrary: acc w)
  case Nil
  then show ?case by simp
next
  case (Cons bp bps)
  obtain r1 w1 where e: "extract_samples run ex bp keep (subset_out wd bp) None w = (r1, w1)"
    by (cases "extract_samples run ex bp keep (subset_out wd bp) None w")
  have l1: "cmd_log w1 = cmd_log w @ [subset_cmd ex wd keep bp]"
    using extract_samples_log [OF e] by (simp add: extract_args_None)
  show ?case
  proof (cases r1)
    case (Inl err)
    then have "w' = w1" using Cons.prems e by (simp add: subset_out_def)
    then have "cmd_log w' = cmd_log w @ map (subset_cmd ex wd keep) (take 1 (bp # bps))"
      using l1 by simp
    then show ?thesis by (intro exI [of _ 1]) simp
  next
    case (Inr v)
    then have "subset_loop run ex wd keep bps (acc @ [subset_out wd bp]) w1 = (r, w')"
      using Cons.prems e by (simp add: subset_out_def)
    from Cons.IH [OF this] obtain k where
      k: "k \<le> length bps" "cmd_log w' = cmd_log w1 @ map (subset_cmd ex wd keep) (take k bps)"
      by blast
    then have "cmd_log w' = cmd_log w @ map (subset_cmd ex wd keep) (take (Suc k) (bp # bps))"
      using l1 by simp
    then show ?thesis using k(1) by (intro exI [of _ "Suc k"]) simp
  qed
qed

lemma subset_loop_Inr:
  "subset_loop run ex wd keep bps acc w = (Inr subs, w')
     \<Longrightarrow> subs = acc @ map (subset_out wd) bps
         \<and> cmd_log w' = cmd_log w @ map (subset_cmd ex wd keep) bps"
proof (induction bps arbitrary: acc w)
  case Nil
  then show ?case by simp
next
  case (Cons bp bps)
  obtain r1 w1 where e: "extract_samples run ex bp keep (subset_out wd bp) None w = (r1, w1)"
    by (cases "extract_samples run ex bp keep (subset_out wd bp) None w")
  have l1: "cmd_log w1 = cmd_log w @ [subset_cmd ex wd keep bp]"
    using extract_samples_log [OF e] by (simp add: extract_args_None)
  show ?case
  proof (cases r1)
    case (Inl err)
    then show ?thesis using Cons.prems e by (simp add: subset_out_def)
  next
    case (Inr v)
    then have "subset_loop run ex wd keep bps (acc @ [subset_out wd bp]) w1 = (Inr subs, w')"
      using Cons.prems e by (simp add: subset_out_def)
    from Cons.IH [OF this] show ?thesis using l1 by simp
  qed
qed

lemma corrected_loop_log:
  assumes "x \<noteq> []"
  shows "corrected_loop run ex wd keep x bps acc w = (r, w')
     \<Longrightarrow> \<exists>k\<le>length bps. cmd_log w' = cmd_log w @ map (corrected_cmd ex wd keep x) (take k bps)"
proof (induction bps arbitrary: acc w)
  case Nil
  then show ?case by simp
next
  case (Cons bp bps)
  obtain r1 w1 where e: "extract_samples run ex bp keep (corrected_out wd bp) (Some x) w = (r1, w1)"
    by (cases "extract_samples run ex bp keep (corrected_out wd bp) (Some x) w")
  have l1: "cmd_log w1 = cmd_log w @ [corrected_cmd ex wd keep x bp]"
    using extract_samples_log [OF e] assms by (simp add: extract_args_Some)
  show ?case
  proof (cases r1)
    case (Inl err)
    then have "w' = w1" using Cons.prems e by (simp add: corrected_out_def)
    then have "cmd_log w' = cmd_log w @ map (corrected_cmd ex wd keep x) (take 1 (bp # bps))"
      using l1 by simp
    then show ?thesis by (intro exI [of _ 1]) simp
  next
    case (Inr v)
    then have "corrected_loop run ex wd keep x bps (acc @ [corrected_out wd bp]) w1 = (r, w')"
      using Cons.prems e by (simp add: corrected_out_def)
    from Cons.IH [OF this] obtain k where
      k: "k \<le> length bps" "cmd_log w' = cmd_log w1 @ map (corrected_cmd ex wd keep x) (take k bps)"
      by blast
    then have "cmd_log w' = cmd_log w @ map (corrected_cmd ex wd keep x) (take (Suc k) (bp # bps))"
      using l1 by simp
    then show ?thesis using k(1) by (intro exI [of _ "Suc k"]) simp
  qed
qed

lemma corrected_loop_Inr:
  assumes "x \<noteq> []"
  shows "corrected_loop run ex wd keep x bps acc w = (Inr cs, w')
     \<Longrightarrow> cs = acc @ map (corrected_out wd) bps
         \<and> cmd_log w' = cmd_log w @ map (corrected_cmd ex wd keep x) bps"
proof (induction bps arbitrary: acc w)
  case Nil
  then show ?case by simp
next
  case (Cons bp bps)
  obtain r1 w1 where e: "extract_samples run ex bp keep (corrected_out wd bp) (Some x) w = (r1, w1)"
    by (cases "extract_samples run ex bp keep (corrected_out wd bp) (Some x) w")
  have l1: "cmd_log w1 = cmd_log w @ [corrected_cmd ex wd keep x bp]"
    using extract_samples_log [OF e] assms by (simp add: extract_args_Some)
  show ?case
  proof (cases r1)
    case (Inl err)
    then show ?thesis using Cons.prems e by (simp add: corrected_out_def)
  next
    case (Inr v)
    then have "corrected_loop run ex wd keep x bps (acc @ [corrected_out wd bp]) w1 = (Inr cs, w')"
      using Cons.prems e by (simp add: corrected_out_def)
    from Cons.IH [OF this] show ?thesis using l1 by simp
  qed
qed

lemma not_exclude_subset [simp]: "\<not> is_exclude_cmd (subset_cmd ex wd keep bp)"
  by (simp add: is_exclude_cmd_def subset_cmd_def)

lemma not_merge_subset [simp]: "\<not> is_merge_cmd (subset_cmd ex wd keep bp)"
  by (simp add: is_merge_cmd_def subset_cmd_def)

lemma exclude_corrected [simp]: "is_exclude_cmd (corrected_cmd ex wd keep x bp)"
  by (simp add: is_exclude_cmd_def corrected_cmd_def)

lemma not_merge_corrected [simp]: "\<not> is_merge_cmd (corrected_cmd ex wd keep x bp)"
  by (simp add: is_merge_cmd_def corrected_cmd_def)

lemma not_exclude_merge [simp]: "\<not> is_exclude_cmd (ex # merge_cmd_args a b c)"
  by (simp add: is_exclude_cmd_def merge_cmd_args_def)

lemma not_exclude_vcf [simp]: "\<not> is_exclude_cmd (vcf_cmd ex outp)"
  by (simp add: is_exclude_cmd_def vcf_cmd_def)

lemma not_merge_vcf [simp]: "\<not> is_merge_cmd (vcf_cmd ex outp)"
  by (simp add: is_merge_cmd_def vcf_cmd_def)

lemma filter_map_none: "(\<And>x. \<not> P (f x)) \<Longrightarrow> filter P (map f xs) = []"
  by (induction xs) auto

lemma filter_map_all: "(\<And>x. P (f x)) \<Longrightarrow> filter P (map f xs) = map f xs"
  by (induction xs) auto

lemma count_and_export_log:
  assumes "count_and_export run ex outp vcf report w = (r, w')"
  shows "(cmd_log w' = cmd_log w \<or> cmd_log w' = cmd_log w @ [vcf_cmd ex outp])
         \<and> (\<forall>rep. r = Inr rep \<longrightarrow> correction_applied rep = correction_applied report
                \<and> conflict_snp_count rep = conflict_snp_count report)"
  using assms
  by (auto simp add: count_and_export_def Let_def vcf_cmd_def
      split: sum.splits if_splits prod.splits dest: run_plink_log)

lemma check_conflicts_log:
  assumes c: "check_conflicts run ex bps keep outp wd fa report w = (r, w')"
  shows "\<exists>k post. k \<le> length bps
           \<and> cmd_log w' = cmd_log w
                @ map (corrected_cmd ex wd keep (path_str (Path (fa @ ''-merge.missnp'')))) (take k bps) @ post
           \<and> (post = [] \<or> (\<exists>a b. post = [ex # merge_cmd_args a b outp]))
           \<and> (\<forall>rep. r = Inr rep \<and> correction_applied rep \<and> \<not> correction_applied report
                 \<longrightarrow> k = length bps)"
proof -
  let ?m = "Path (fa @ ''-merge.missnp'')"
  let ?x = "path_str ?m"
  have x: "?x \<noteq> []" by (rule path_str_Path_not_Nil)
  show ?thesis
  proof (cases "exists (fsys w) ?m \<and> st_size (fsys w) ?m > 0")
    case False
    then have "cmd_log w' = cmd_log w" "\<forall>rep. r = Inr rep \<longrightarrow> rep = report"
      using c by (auto simp add: check_conflicts_def Let_def split: sum.splits)
    then show ?thesis by (intro exI [of _ 0] exI [of _ "[]"]) auto
  next
    case True
    show ?thesis
    proof (cases "open_lines (fsys w) ?m")
      case (Inl e)
      then have "w' = w" "r = Inl e" using c True by (auto simp add: check_conflicts_def Let_def)
      then show ?thesis by (intro exI [of _ 0] exI [of _ "[]"]) auto
    next
      case (Inr ls)
      obtain r1 w1 where l: "corrected_loop run ex wd keep ?x bps [] w = (r1, w1)"
        by (cases "corrected_loop run ex wd keep ?x bps [] w")
      from corrected_loop_log [OF x l] obtain k where
        k: "k \<le> length bps" "cmd_log w1 = cmd_log w @ map (corrected_cmd ex wd keep ?x) (take k bps)"
        by blast
      show ?thesis
      proof (cases r1)
        case (Inl e)
        then have "w' = w1" "r = Inl e"
          using c True Inr l by (auto simp add: check_conflicts_def Let_def)
        then show ?thesis using k by (intro exI [of _ k] exI [of _ "[]"]) auto
      next
        case r1: (Inr cs)
        from corrected_loop_Inr [OF x l [unfolded r1]]
        have full: "cmd_log w1 = cmd_log w @ map (corrected_cmd ex wd keep ?x) (take (length bps) bps)"
          by simp
        let ?cl = "joinpath wd ''merge_list_corrected.txt''"
        show ?thesis
        proof (cases "write_text (fsys w1) ?cl (list_text cs)")
          case (Inl e)
          then have "w' = w1" "r = Inl e"
            using c True Inr l r1 by (auto simp add: check_conflicts_def Let_def)
          then show ?thesis using full by (intro exI [of _ "length bps"] exI [of _ "[]"]) auto
        next
          case wt: (Inr t)
          show ?thesis
          proof (cases cs)
            case Nil
            then have "cmd_log w' = cmd_log w1"
              using c True Inr l r1 wt by (auto simp add: check_conflicts_def Let_def)
            then show ?thesis using full by (intro exI [of _ "length bps"] exI [of _ "[]"]) auto
          next
            case (Cons c0 cs')
            obtain r2 w2 where rp: "run_plink run ex (merge_cmd_args c0 (path_str ?cl) outp) True
                 (w1\<lparr>fsys := t\<rparr>) = (r2, w2)"
              by (cases "run_plink run ex (merge_cmd_args c0 (path_str ?cl) outp) True (w1\<lparr>fsys := t\<rparr>)")
            have "cmd_log w2 = cmd_log w1 @ [ex # merge_cmd_args c0 (path_str ?cl) outp]"
              using run_plink_log [OF rp] by simp
            moreover have "w' = w2"
              using c True Inr l r1 wt Cons rp
              by (auto simp add: check_conflicts_def Let_def split: sum.splits)
            ultimately have "cmd_log w' = cmd_log w
                @ map (corrected_cmd ex wd keep ?x) (take (length bps) bps)
                @ [ex # merge_cmd_args c0 (path_str ?cl) outp]"
              using full by simp
            then show ?thesis
              by (intro exI [of _ "length bps"] exI [of _ "[ex # merge_cmd_args c0 (path_str ?cl) outp]"])
                 auto
          qed
        qed
      qed
    qed
  qed
qed

lemma merge_log_shape:
  assumes m: "merge run ex bps keep outp work_dir vcf w = (r, w')"
  shows "\<exists>pre k post. k \<le> length bps
           \<and> cmd_log w' = cmd_log w @ pre
                @ map (corrected_cmd ex (Path work_dir) keep (path_str (missnp_of (Path work_dir)))) (take k bps)
                @ post
           \<and> filter is_exclude_cmd pre = [] \<and> filter is_exclude_cmd post = []
           \<and> length (filter is_merge_cmd pre) \<le> 1 \<and> length (filter is_merge_cmd post) \<le> 1
           \<and> (\<forall>rep. r = Inr rep \<and> correction_applied rep \<longrightarrow> k = length bps)"
proof -
  let ?wd = "Path work_dir"
  let ?sc = "subset_cmd ex ?wd keep"
  let ?report = "\<lparr>batch_count = int (length bps), conflict_snp_count = 0,
                           final_sample_count = 0, final_variant_count = 0,
                           correction_applied = False, output_prefix = []\<rparr>"
  have fs [simp]: "\<And>xs. filter is_exclude_cmd (map ?sc xs) = []" "\<And>xs. filter is_merge_cmd (map ?sc xs) = []"
    by (simp_all add: filter_map_none)
  show ?thesis
  proof (cases "mkdir_p (fsys w) ?wd")
    case (Inl e)
    then have "w' = w" "r = Inl e" using m by (simp_all add: merge_def Let_def split: if_splits)
    then show ?thesis
      by (intro exI [of _ "[]", THEN exI [of _ 0, THEN exI [of _ "[]"]]]) auto
  next
    case t0: (Inr t0)
    obtain r1 w1 where s: "subset_loop run ex ?wd keep bps [] (w\<lparr>fsys := t0\<rparr>) = (r1, w1)"
      by (cases "subset_loop run ex ?wd keep bps [] (w\<lparr>fsys := t0\<rparr>)")
    from subset_loop_log [OF s] obtain k1 where
      k1: "cmd_log w1 = cmd_log w @ map ?sc (take k1 bps)"
      by auto
    have early: ?thesis if "cmd_log w' = cmd_log w1" "\<forall>rep. r = Inr rep \<longrightarrow> \<not> correction_applied rep"
      using that k1 by (intro exI [of _ "[]", THEN exI [of _ 0, THEN exI [of _ "map ?sc (take k1 bps)"]]]) auto
    show ?thesis
    proof (cases r1)
      case (Inl e)
      then have "w' = w1" "r = Inl e" using m t0 s by (simp_all add: merge_def Let_def split: if_splits)
      then show ?thesis by (intro early) simp_all
    next
      case r1: (Inr subs)
      show ?thesis
      proof (cases "length subs < 2")
        case True
        then have "w' = w1" "\<forall>rep. r = Inr rep \<longrightarrow> \<not> correction_applied rep"
          using m t0 s r1 by (auto simp add: merge_def Let_def split: if_splits)
        then show ?thesis by (intro early) simp_all
      next
        case long: False
        let ?ml = "joinpath ?wd ''merge_list.txt''"
        show ?thesis
        proof (cases "write_text (fsys w1) ?ml (list_text subs)")
          case (Inl e)
          then have "w' = w1" "r = Inl e" using m t0 s r1 long by (simp_all add: merge_def Let_def split: if_splits)
          then show ?thesis by (intro early) simp_all
        next
          case t1: (Inr t1)
          let ?fa = "path_str (joinpath ?wd ''merge_attempt'')"
          let ?m1 = "merge_cmd_args (hd subs) (path_str ?ml) ?fa"
          obtain r2 w2 where rp: "run_plink run ex ?m1 False (w1\<lparr>fsys := t1\<rparr>) = (r2, w2)"
            by (cases "run_plink run ex ?m1 False (w1\<lparr>fsys := t1\<rparr>)")
          have l2: "cmd_log w2 = cmd_log w @ (map ?sc (take k1 bps) @ [ex # ?m1])"
            using run_plink_log [OF rp] k1 by simp
          let ?pre = "map ?sc (take k1 bps) @ [ex # ?m1]"
          have pre: "filter is_exclude_cmd ?pre = []" "length (filter is_merge_cmd ?pre) \<le> 1"
            by simp_all
          show ?thesis
          proof (cases r2)
            case (Inl e)
            then have "w' = w2" "r = Inl e" using m t0 s r1 long t1 rp by (simp_all add: merge_def Let_def split: if_splits)
            then show ?thesis using l2 pre
              by (intro exI [of _ "[]", THEN exI [of _ 0, THEN exI [of _ ?pre]]]) auto
          next
            case r2: (Inr rc)
            obtain r3 w3 where cc: "check_conflicts run ex bps keep outp ?wd ?fa ?report w2 = (r3, w3)"
              by (cases "check_conflicts run ex bps keep outp ?wd ?fa ?report w2")
            from check_conflicts_log [OF cc] obtain k post where
              kp: "k \<le> length bps"
                  "cmd_log w3 = cmd_log w2 @ map (corrected_cmd ex ?wd keep (path_str (missnp_of ?wd))) (take k bps) @ post"
                  "post = [] \<or> (\<exists>a b. post = [ex # merge_cmd_args a b outp])"
                  "\<forall>rep. r3 = Inr rep \<and> correction_applied rep \<longrightarrow> k = length bps"
              by (auto simp add: missnp_of_def first_attempt_of_def)
            have post: "filter is_exclude_cmd post = []" "length (filter is_merge_cmd post) \<le> 1"
              using kp(3) by auto
            show ?thesis
            proof (cases r3)
              case (Inl e)
              then have "w' = w3" "r = Inl e"
                using m t0 s r1 long t1 rp r2 cc by (simp_all add: merge_def Let_def split: if_splits)
              then show ?thesis using l2 pre kp post
                by (intro exI [of _ post, THEN exI [of _ k, THEN exI [of _ ?pre]]]) auto
            next
              case r3: (Inr report1)
              have ce: "count_and_export run ex outp vcf report1 w3 = (r, w')"
                using m t0 s r1 long t1 rp r2 cc r3 by (simp add: merge_def Let_def split: if_splits)
              from count_and_export_log [OF ce]
              have l4: "cmd_log w' = cmd_log w3 \<or> cmd_log w' = cmd_log w3 @ [vcf_cmd ex outp]"
                and keep: "\<forall>rep. r = Inr rep \<longrightarrow> correction_applied rep = correction_applied report1"
                by auto
              from l4 show ?thesis
              proof
                assume "cmd_log w' = cmd_log w3"
                then show ?thesis using l2 pre kp post keep r3
                  by (intro exI [of _ post, THEN exI [of _ k, THEN exI [of _ ?pre]]]) auto
              next
                assume "cmd_log w' = cmd_log w3 @ [vcf_cmd ex outp]"
                then show ?thesis using l2 pre kp post keep r3
                  by (intro exI [of _ "post @ [vcf_cmd ex outp]", THEN exI [of _ k, THEN exI [of _ ?pre]]]) auto
              qed
            qed
          qed
        qed
      qed
    qed
  qed
qed

lemma demo_run:
  "merge demo_plink ''plink'' [''data/b1'', ''data/b2''] ''keep.txt'' ''out/final'' ''work'' True start_world
     = (Inr demo_report, demo_world)"
  by code_simp

section \<open>Fewer than two batches\<close>

lemma mkdir_work: "mkdir_p [] (Path ''work'') = Inr [(([], [''work'']), Dir)]"
  by (simp add: mkdir_p_def Path_def path_root_def is_file_def is_dir_def ancestors_def)

text \<open>
  C10: with an empty batch list, once the working directory is in place, \<open>merge\<close> returns
  the report with batch count 0, conflict count 0, no correction, sample and variant counts
  0 and an empty output prefix; the command log is unchanged, so no extraction, merge,
  correction or export was run.
\<close>

theorem merge_empty_batch_list:
  assumes "mkdir_p (fsys w) (Path work_dir) = Inr t0"
  shows "merge run plink_exec [] keep_list out_prefix work_dir convert_to_vcf w =
           (Inr \<lparr>batch_count = 0, conflict_snp_count = 0, final_sample_count = 0,
                 final_variant_count = 0, correction_applied = False, output_prefix = []\<rparr>,
            w\<lparr>fsys := t0\<rparr>)"
  using assms by (simp add: merge_def)

theorem merge_empty_batch_list_witness:
  "mkdir_p (fsys start_world) (Path ''work'') = Inr [(([], [''work'']), Dir)]
   \<and> merge quiet_tool ''plink'' [] ''keep.txt'' ''out/final'' ''work'' True start_world =
       (Inr \<lparr>batch_count = 0, conflict_snp_count = 0, final_sample_count = 0,
             final_variant_count = 0, correction_applied = False, output_prefix = []\<rparr>,
        \<lparr>fsys = [(([], [''work'']), Dir)], cmd_log = []\<rparr>)"
proof -
  have h: "mkdir_p (fsys start_world) (Path ''work'') = Inr [(([], [''work'']), Dir)]"
    using mkdir_work by (simp add: start_world_def)
  show ?thesis
    using merge_empty_batch_list [OF h, of quiet_tool "''plink''" "''keep.txt''" "''out/final''" True] h
    by (simp add: start_world_def)
qed

text \<open>
  C5: with exactly one batch whose extraction succeeds, \<open>merge\<close> returns without error a
  report whose output prefix is the subsetted input, with conflict count 0 and no
  correction; the only command run is that extraction.
\<close>

theorem merge_single_batch:
  assumes "mkdir_p (fsys w) (Path work_dir) = Inr t0"
      and "extract_samples run plink_exec bp keep_list (subset_out (Path work_dir) bp) None (w\<lparr>fsys := t0\<rparr>)
             = (Inr r, w1)"
  shows "merge run plink_exec [bp] keep_list out_prefix work_dir convert_to_vcf w =
           (Inr \<lparr>batch_count = 1, conflict_snp_count = 0, final_sample_count = 0,
                 final_variant_count = 0, correction_applied = False,
                 output_prefix = subset_out (Path work_dir) bp\<rparr>, w1)
         \<and> cmd_log w1 = cmd_log w @ [subset_cmd plink_exec (Path work_dir) keep_list bp]"
proof -
  have "cmd_log w1 = cmd_log w @ [subset_cmd plink_exec (Path work_dir) keep_list bp]"
    using extract_samples_log [OF assms(2)] by (simp add: extract_args_None)
  then show ?thesis
    using assms by (simp add: merge_def subset_out_def Let_def)
qed

lemma subset_out_b1: "subset_out (Path ''work'') ''data/b1'' = ''work/b1_subset''"
  by (simp add: subset_out_def Path_def path_root_def joinpath_def path_name_def path_str_def)

theorem merge_single_batch_witness:
  "mkdir_p (fsys start_world) (Path ''work'') = Inr [(([], [''work'']), Dir)]
   \<and> merge quiet_tool ''plink'' [''data/b1''] ''keep.txt'' ''out/final'' ''work'' True start_world =
       (Inr \<lparr>batch_count = 1, conflict_snp_count = 0, final_sample_count = 0,
             final_variant_count = 0, correction_applied = False,
             output_prefix = ''work/b1_subset''\<rparr>,
        \<lparr>fsys = [(([], [''work'']), Dir)],
         cmd_log = [[''plink'', ''--bfile'', ''data/b1'', ''--keep'', ''keep.txt'', ''--make-bed'',
                     ''--out'', ''work/b1_subset'']]\<rparr>)"
proof -
  have h: "mkdir_p (fsys start_world) (Path ''work'') = Inr [(([], [''work'']), Dir)]"
    using mkdir_work by (simp add: start_world_def)
  have e: "extract_samples quiet_tool ''plink'' ''data/b1'' ''keep.txt''
             (subset_out (Path ''work'') ''data/b1'') None (start_world\<lparr>fsys := [(([], [''work'']), Dir)]\<rparr>)
           = (Inr ''work/b1_subset'',
              \<lparr>fsys = [(([], [''work'']), Dir)],
               cmd_log = [[''plink'', ''--bfile'', ''data/b1'', ''--keep'', ''keep.txt'', ''--make-bed'',
                           ''--out'', ''work/b1_subset'']]\<rparr>)"
    by (simp add: extract_samples_def run_plink_def extract_args_def quiet_tool_def start_world_def
        subset_out_b1)
  show ?thesis
    using merge_single_batch [OF h e, of "''out/final''" True] h
    by (simp add: subset_out_b1)
qed

section \<open>One correction round at most\<close>

text \<open>
  C3: whatever the tool does and however the run ends, \<open>merge\<close> adds at most two merge
  commands to the log (the first attempt and one re-merge) and at most one re-extraction
  per batch: conflicts left by the re-merge are followed by no further round.
\<close>

theorem merge_at_most_one_correction_round:
  "length (filter is_merge_cmd (cmd_log (snd (merge run plink_exec batch_prefixes keep_list out_prefix work_dir convert_to_vcf w))))
     \<le> length (filter is_merge_cmd (cmd_log w)) + 2
   \<and> length (filter is_exclude_cmd (cmd_log (snd (merge run plink_exec batch_prefixes keep_list out_prefix work_dir convert_to_vcf w))))
     \<le> length (filter is_exclude_cmd (cmd_log w)) + length batch_prefixes"
proof -
  obtain r w' where m: "merge run plink_exec batch_prefixes keep_list out_prefix work_dir convert_to_vcf w = (r, w')"
    by (cases "merge run plink_exec batch_prefixes keep_list out_prefix work_dir convert_to_vcf w")
  from merge_log_shape [OF m] obtain pre k post where
    s: "k \<le> length batch_prefixes"
       "cmd_log w' = cmd_log w @ pre
          @ map (corrected_cmd plink_exec (Path work_dir) keep_list (path_str (missnp_of (Path work_dir))))
              (take k batch_prefixes) @ post"
       "filter is_exclude_cmd pre = []" "filter is_exclude_cmd post = []"
       "length (filter is_merge_cmd pre) \<le> 1" "length (filter is_merge_cmd post) \<le> 1"
    by blast
  show ?thesis
    using s by (simp add: m filter_map_none filter_map_all)
qed

theorem merge_at_most_one_correction_round_witness:
  "length (filter is_merge_cmd (cmd_log (snd (merge demo_plink ''plink'' [''data/b1'', ''data/b2'']
        ''keep.txt'' ''out/final'' ''work'' True start_world)))) \<le> 0 + 2
   \<and> length (filter is_exclude_cmd (cmd_log (snd (merge demo_plink ''plink'' [''data/b1'', ''data/b2'']
        ''keep.txt'' ''out/final'' ''work'' True start_world)))) \<le> 0 + 2
   \<and> length (filter is_merge_cmd (cmd_log demo_world)) = 2
   \<and> length (filter is_exclude_cmd (cmd_log demo_world)) = 2"
proof -
  have a: "length (filter is_merge_cmd (cmd_log demo_world)) = 2"
    by code_simp
  have b: "length (filter is_exclude_cmd (cmd_log demo_world)) = 2"
    by code_simp
  show ?thesis
    using merge_at_most_one_correction_round [of demo_plink "''plink''" "[''data/b1'', ''data/b2'']"
        "''keep.txt''" "''out/final''" "''work''" True start_world] a b
    by (simp add: start_world_def)
qed

text \<open>
  C6: the re-extractions a run of \<open>merge\<close> logs are one per batch, in batch order and
  from the first batch on, every one with the same \<open>--exclude\<close> argument, the conflict
  file of the first attempt; in a run that returns a report with the correction applied
  they cover every batch.
\<close>

theorem correction_round_covers_every_batch:
  assumes "merge run plink_exec batch_prefixes keep_list out_prefix work_dir convert_to_vcf w = (r, w')"
  shows "\<exists>k\<le>length batch_prefixes.
           filter is_exclude_cmd (drop (length (cmd_log w)) (cmd_log w')) =
             map (\<lambda>bp. [plink_exec, ''--bfile'', bp, ''--keep'', keep_list, ''--make-bed'',
                         ''--out'', corrected_out (Path work_dir) bp,
                         ''--exclude'', path_str (missnp_of (Path work_dir))])
               (take k batch_prefixes)
         \<and> (\<forall>rep. r = Inr rep \<and> correction_applied rep \<longrightarrow> k = length batch_prefixes)"
proof -
  from merge_log_shape [OF assms] obtain pre k post where
    k: "k \<le> length batch_prefixes"
    and s: "cmd_log w' = cmd_log w @ pre
          @ map (corrected_cmd plink_exec (Path work_dir) keep_list (path_str (missnp_of (Path work_dir))))
              (take k batch_prefixes) @ post"
       "filter is_exclude_cmd pre = []" "filter is_exclude_cmd post = []"
    and full: "\<forall>rep. r = Inr rep \<and> correction_applied rep \<longrightarrow> k = length batch_prefixes"
    by blast
  have "filter is_exclude_cmd (drop (length (cmd_log w)) (cmd_log w')) =
             map (\<lambda>bp. [plink_exec, ''--bfile'', bp, ''--keep'', keep_list, ''--make-bed'',
                         ''--out'', corrected_out (Path work_dir) bp,
                         ''--exclude'', path_str (missnp_of (Path work_dir))])
               (take k batch_prefixes)"
    using s by (simp add: filter_map_all) (simp add: corrected_cmd_def)
  then show ?thesis using k full by blast
qed

theorem correction_round_covers_every_batch_witness:
  "merge demo_plink ''plink'' [''data/b1'', ''data/b2''] ''keep.txt'' ''out/final'' ''work'' True start_world
     = (Inr demo_report, demo_world)
   \<and> correction_applied demo_report
   \<and> filter is_exclude_cmd (drop (length (cmd_log start_world)) (cmd_log demo_world)) =
       [[''plink'', ''--bfile'', ''data/b1'', ''--keep'', ''keep.txt'', ''--make-bed'',
         ''--out'', ''work/b1_corrected'', ''--exclude'', ''work/merge_attempt-merge.missnp''],
        [''plink'', ''--bfile'', ''data/b2'', ''--keep'', ''keep.txt'', ''--make-bed'',
         ''--out'', ''work/b2_corrected'', ''--exclude'', ''work/merge_attempt-merge.missnp'']]"
proof -
  have c: "correction_applied demo_report" by (simp add: demo_report_def)
  have o: "corrected_out (Path ''work'') ''data/b1'' = ''work/b1_corrected''"
          "corrected_out (Path ''work'') ''data/b2'' = ''work/b2_corrected''"
          "path_str (missnp_of (Path ''work'')) = ''work/merge_attempt-merge.missnp''"
    by code_simp+
  from correction_round_covers_every_batch [OF demo_run] c obtain k where
    k: "k = length [''data/b1'', ''data/b2'']"
    and f: "filter is_exclude_cmd (drop (length (cmd_log start_world)) (cmd_log demo_world)) =
             map (\<lambda>bp. [''plink'', ''--bfile'', bp, ''--keep'', ''keep.txt'', ''--make-bed'',
                         ''--out'', corrected_out (Path ''work'') bp,
                         ''--exclude'', path_str (missnp_of (Path ''work''))])
               (take k [''data/b1'', ''data/b2''])"
    by blast
  show ?thesis
    using f demo_run c unfolding k by (simp add: o)
qed

section \<open>The conflict report\<close>

lemma merge_after_first_attempt:
  assumes "after_first_attempt run ex bps keep work_dir w = Some w2"
  shows "merge run ex bps keep outp work_dir vcf w =
           (case check_conflicts run ex bps keep outp (Path work_dir) (first_attempt_of (Path work_dir))
                   \<lparr>batch_count = int (length bps), conflict_snp_count = 0,
                    final_sample_count = 0, final_variant_count = 0,
                    correction_applied = False, output_prefix = []\<rparr> w2 of
              (Inl e, w3) \<Rightarrow> (Inl e, w3)
            | (Inr report1, w3) \<Rightarrow> count_and_export run ex outp vcf report1 w3)"
  using assms
  by (auto simp add: after_first_attempt_def merge_def Let_def first_attempt_of_def
      split: sum.splits prod.splits if_splits)

lemma check_conflicts_report:
  assumes "map_of (fsys w) (Path (fa @ ''-merge.missnp'')) = Some (File c)" and "c \<noteq> []"
      and "check_conflicts run ex bps keep outp wd fa report w = (Inr rep, w')"
  shows "correction_applied rep \<and> conflict_snp_count rep = int (length (text_lines c))"
  using assms
  by (auto simp add: check_conflicts_def Let_def exists_def st_size_def open_lines_def is_dir_def
      split: sum.splits prod.splits if_splits list.splits)

lemma corrected_out_chars:
  "set (corrected_out (Path work_dir) bp)
     \<subseteq> {CHR ''.'', CHR ''/''} \<union> set work_dir \<union> set bp \<union> set ''_corrected''"
proof -
  let ?n = "path_name (Path bp) @ ''_corrected''"
  let ?p = "joinpath (Path work_dir) ?n"
  have a: "\<Union> (set ` set (snd ?p)) \<subseteq> set work_dir \<union> set bp \<union> set ''_corrected''"
    using joinpath_chars(1) [of "Path work_dir" ?n] Path_chars [of _ work_dir] path_name_chars [of bp]
    by auto
  have b: "set (fst ?p) \<subseteq> {CHR ''/''}"
    using joinpath_chars(2) [of "Path work_dir" ?n] path_root_chars [of work_dir]
    by (auto simp add: Path_def)
  show ?thesis
    unfolding corrected_out_def using path_str_chars [of ?p] a b by blast
qed

lemma corrected_out_nl_free:
  "nl_free work_dir \<Longrightarrow> nl_free bp \<Longrightarrow> nl_free (corrected_out (Path work_dir) bp)"
  using corrected_out_chars [of work_dir bp] by (auto simp add: nl_free_def)

lemma bim_ids_cong:
  "map_of t' (Path (p @ ''.bim'')) = map_of t (Path (p @ ''.bim'')) \<Longrightarrow> bim_ids t' p = bim_ids t p"
  by (simp add: bim_ids_def open_lines_def is_dir_def)

lemma listed_file:
  "map_of t (Path x) = Some (File c) \<Longrightarrow> snd (Path x) \<noteq> [] \<Longrightarrow> listed t x = set (text_lines c)"
  by (simp add: listed_def open_lines_def is_dir_def)

lemma missnp_not_output:
  "Path (fa @ ''-merge.missnp'') \<notin> set (make_bed_outputs out)"
proof
  assume "Path (fa @ ''-merge.missnp'') \<in> set (make_bed_outputs out)"
  then obtain ext where e: "ext \<in> set [''.bed'', ''.bim'', ''.fam'', ''.log'', ''.nosex'']"
    and eq: "Path (fa @ ''-merge.missnp'') = Path (out @ ext)"
    by (auto simp add: make_bed_outputs_def)
  have "path_name (Path (out @ ext)) = last (split_slash out) @ ext"
    using e by (intro path_name_Path_append(1)) auto
  moreover have "path_name (Path (fa @ ''-merge.missnp'')) = last (split_slash fa) @ ''-merge.missnp''"
    by (intro path_name_Path_append(1)) auto
  ultimately have "last (last (split_slash fa) @ ''-merge.missnp'') = last (last (split_slash out) @ ext)"
    using eq by simp
  then show False using e by auto
qed

lemma bim_not_list_file:
  "Path (out @ ''.bim'') \<noteq> joinpath wd ''merge_list_corrected.txt''"
proof
  assume eq: "Path (out @ ''.bim'') = joinpath wd ''merge_list_corrected.txt''"
  have "path_name (Path (out @ ''.bim'')) = last (split_slash out) @ ''.bim''"
    by (intro path_name_Path_append(1)) auto
  moreover have "path_name (joinpath wd ''merge_list_corrected.txt'') = ''merge_list_corrected.txt''"
    by (simp add: joinpath_def Path_def path_name_def)
  ultimately have "last (last (split_slash out) @ ''.bim'') = last ''merge_list_corrected.txt''"
    using eq by simp
  then show False by simp
qed

lemma corrected_loop_clean:
  assumes contract: "honours_exclude run"
      and x: "x \<noteq> []" "snd (Path x) \<noteq> []" "\<And>out. Path x \<notin> set (make_bed_outputs out)"
  shows "map_of (fsys w) (Path x) = Some (File c)
     \<Longrightarrow> \<forall>out\<in>set acc. bim_ids (fsys w) out \<inter> set (text_lines c) = {}
     \<Longrightarrow> corrected_loop run ex wd keep x bps acc w = (Inr cs, w')
     \<Longrightarrow> map_of (fsys w') (Path x) = Some (File c)
         \<and> (\<forall>out\<in>set cs. bim_ids (fsys w') out \<inter> set (text_lines c) = {})"
proof (induction bps arbitrary: acc w)
  case Nil
  then show ?case by simp
next
  case (Cons bp bps)
  let ?out = "corrected_out wd bp"
  obtain r1 w1 where e: "extract_samples run ex bp keep ?out (Some x) w = (r1, w1)"
    by (cases "extract_samples run ex bp keep ?out (Some x) w")
  show ?case
  proof (cases r1)
    case (Inl err)
    then show ?thesis using Cons.prems(3) e by (simp add: corrected_out_def)
  next
    case (Inr v)
    then have rest: "corrected_loop run ex wd keep x bps (acc @ [?out]) w1 = (Inr cs, w')"
      using Cons.prems(3) e by (simp add: corrected_out_def)
    have ran: "run [ex, ''--bfile'', bp, ''--keep'', keep, ''--make-bed'', ''--out'', ?out, ''--exclude'', x]
                 (fsys w) = (Inr (0, True), fsys w1)"
      using extract_samples_ran [OF e [unfolded Inr]] x(1) by (simp add: extract_args_def)
    have X: "listed (fsys w) x = set (text_lines c)"
      using listed_file [OF Cons.prems(1) x(2)] .
    from contract ran X x(3) [of ?out]
    have c1: "bim_ids (fsys w1) ?out \<inter> set (text_lines c) = {}"
      and c2: "\<And>p. bim_ids (fsys w1) p \<inter> set (text_lines c) \<subseteq> bim_ids (fsys w) p"
      and c3: "map_of (fsys w1) (Path x) = map_of (fsys w) (Path x)"
      unfolding honours_exclude_def by metis+
    have f: "map_of (fsys w1) (Path x) = Some (File c)"
      using c3 Cons.prems(1) by simp
    have a: "\<forall>out\<in>set (acc @ [?out]). bim_ids (fsys w1) out \<inter> set (text_lines c) = {}"
    proof
      fix out assume o: "out \<in> set (acc @ [?out])"
      show "bim_ids (fsys w1) out \<inter> set (text_lines c) = {}"
      proof (cases "out = ?out")
        case True
        then show ?thesis using c1 by simp
      next
        case False
        then have "bim_ids (fsys w) out \<inter> set (text_lines c) = {}"
          using o Cons.prems(2) by auto
        then show ?thesis using c2 [of out] by blast
      qed
    qed
    from Cons.IH [OF f a rest] show ?thesis .
  qed
qed

lemma check_conflicts_steps:
  assumes "map_of (fsys w) (Path (fa @ ''-merge.missnp'')) = Some (File c)" and "c \<noteq> []"
      and "check_conflicts run ex bps keep outp wd fa report w = (Inr rep, w')"
  shows "\<exists>cs w1 t c0 rest rc.
           corrected_loop run ex wd keep (path_str (Path (fa @ ''-merge.missnp''))) bps [] w = (Inr cs, w1)
         \<and> write_text (fsys w1) (joinpath wd ''merge_list_corrected.txt'') (list_text cs) = Inr t
         \<and> cs = c0 # rest
         \<and> run_plink run ex (merge_cmd_args c0 (path_str (joinpath wd ''merge_list_corrected.txt'')) outp)
              True (w1\<lparr>fsys := t\<rparr>) = (Inr rc, w')"
  using assms
  by (auto simp add: check_conflicts_def Let_def exists_def st_size_def
      split: sum.splits prod.splits if_splits list.splits)

lemma count_and_export_fs:
  assumes "count_and_export run ex outp vcf report w = (Inr rep, w')"
  shows "fsys w' = fsys w \<or> (\<exists>r. run (vcf_cmd ex outp) (fsys w) = (r, fsys w'))"
  using assms
  by (auto simp add: count_and_export_def Let_def vcf_cmd_def run_plink_def
      split: sum.splits if_splits prod.splits)

lemma after_first_attempt_two:
  "after_first_attempt run ex bps keep work_dir w = Some w2 \<Longrightarrow> 2 \<le> length bps"
  by (auto simp add: after_first_attempt_def Let_def split: sum.splits prod.splits if_splits
      dest!: subset_loop_Inr)

lemma write_text_Inr:
  "write_text t p s = Inr t' \<Longrightarrow> map_of t' = (map_of t)(p \<mapsto> File s)"
  by (auto simp add: write_text_def update_conv' split: if_splits)

lemma corrected_merge_clean:
  assumes contract: "plink_contract run"
      and names: "list_all nl_free (work_dir # bps)"
      and afa: "after_first_attempt run ex bps keep work_dir w = Some w2"
      and mfile: "map_of (fsys w2) (missnp_of (Path work_dir)) = Some (File c)" and ne: "c \<noteq> []"
      and m: "merge run ex bps keep outp work_dir vcf w = (Inr rep, w')"
  shows "bim_ids (fsys w') outp \<inter> set (text_lines c) = {}"
proof -
  let ?wd = "Path work_dir"
  let ?fa = "first_attempt_of ?wd"
  let ?m = "Path (?fa @ ''-merge.missnp'')"
  let ?x = "path_str ?m"
  let ?cl = "joinpath ?wd ''merge_list_corrected.txt''"
  let ?X = "set (text_lines c)"
  let ?r0 = "\<lparr>batch_count = int (length bps), conflict_snp_count = 0,
                    final_sample_count = 0, final_variant_count = 0,
                    correction_applied = False, output_prefix = []\<rparr>"
  have he: "honours_exclude run" and ml: "merges_listed run" and ek: "export_keeps_bim run"
    using contract by (simp_all add: plink_contract_def)
  have px: "Path ?x = ?m" by (rule Path_path_str [OF wf_path_Path])
  have x1: "?x \<noteq> []" by (rule path_str_Path_not_Nil)
  have x2: "snd (Path ?x) \<noteq> []"
    unfolding px by (rule path_name_Path_append(2)) auto
  have x3: "\<And>out. Path ?x \<notin> set (make_bed_outputs out)"
    unfolding px by (rule missnp_not_output)
  have mfile': "map_of (fsys w2) (Path ?x) = Some (File c)"
    using mfile by (simp add: px missnp_of_def)
  obtain r3 w3 where cc: "check_conflicts run ex bps keep outp ?wd ?fa ?r0 w2 = (r3, w3)"
    by (cases "check_conflicts run ex bps keep outp ?wd ?fa ?r0 w2")
  from merge_after_first_attempt [OF afa, of outp vcf] m cc
  obtain report1 where r3: "r3 = Inr report1"
    and ce: "count_and_export run ex outp vcf report1 w3 = (Inr rep, w')"
    by (cases r3) auto
  from check_conflicts_steps [OF mfile [unfolded missnp_of_def] ne cc [unfolded r3]]
  obtain cs w1 t c0 rest rc where
    loop: "corrected_loop run ex ?wd keep ?x bps [] w2 = (Inr cs, w1)"
    and wt: "write_text (fsys w1) ?cl (list_text cs) = Inr t"
    and cs: "cs = c0 # rest"
    and rp: "run_plink run ex (merge_cmd_args c0 (path_str ?cl) outp) True (w1\<lparr>fsys := t\<rparr>) = (Inr rc, w3)"
    by blast
  from corrected_loop_clean [OF he x1 x2 x3 mfile' _ loop]
  have clean1: "\<forall>out\<in>set cs. bim_ids (fsys w1) out \<inter> ?X = {}"
    by simp
  have cs_map: "cs = map (corrected_out ?wd) bps"
    using corrected_loop_Inr [OF x1 loop] by simp
  have two: "2 \<le> length bps" by (rule after_first_attempt_two [OF afa])
  have nl: "list_all nl_free cs"
    using names corrected_out_nl_free [of work_dir] by (auto simp add: cs_map list_all_iff)
  have rest_ne: "rest \<noteq> []"
    using two cs cs_map by (cases bps; cases "tl bps") auto
  have lines: "text_lines (list_text cs) = rest"
    using text_lines_list_text [OF rest_ne] nl by (simp add: list_text_def cs)
  have mt: "map_of t = (map_of (fsys w1))(?cl \<mapsto> File (list_text cs))"
    by (rule write_text_Inr [OF wt])
  have same: "bim_ids t out = bim_ids (fsys w1) out" for out
    by (rule bim_ids_cong) (simp add: mt bim_not_list_file)
  have pcl: "Path (path_str ?cl) = ?cl"
    by (rule Path_path_str [OF wf_path_joinpath [OF wf_path_Path]])
  have scl: "snd ?cl \<noteq> []"
    by (simp add: joinpath_def Path_def)
  have entries: "listed t (path_str ?cl) = set rest"
    using listed_file [of t "path_str ?cl" "list_text cs"] pcl scl mt lines by simp
  have ran: "run [ex, ''--bfile'', c0, ''--merge-list'', path_str ?cl, ''--make-bed'', ''--out'', outp] t
               = (Inr (0, True), fsys w3)"
    using run_plink_checked [OF rp] by (simp add: merge_cmd_args_def)
  have merged: "bim_ids (fsys w3) outp \<subseteq> bim_ids t c0 \<union> (\<Union>p\<in>listed t (path_str ?cl). bim_ids t p)"
    by (rule ml [unfolded merges_listed_def, rule_format, OF ran])
  have clean3: "bim_ids (fsys w3) outp \<inter> ?X = {}"
  proof (rule ccontr)
    assume "bim_ids (fsys w3) outp \<inter> ?X \<noteq> {}"
    then obtain i where i: "i \<in> bim_ids (fsys w3) outp" "i \<in> ?X" by blast
    from i(1) merged obtain p where p: "p = c0 \<or> p \<in> listed t (path_str ?cl)" "i \<in> bim_ids t p"
      by blast
    from p(1) have "p \<in> set cs" by (auto simp add: entries cs)
    with clean1 have "bim_ids (fsys w1) p \<inter> ?X = {}" by simp
    with p(2) i(2) show False by (simp add: same disjoint_iff)
  qed
  from count_and_export_fs [OF ce]
  have "bim_ids (fsys w') outp \<subseteq> bim_ids (fsys w3) outp"
  proof
    assume "fsys w' = fsys w3"
    then show ?thesis by (simp add: bim_ids_def)
  next
    assume "\<exists>r. run (vcf_cmd ex outp) (fsys w3) = (r, fsys w')"
    then obtain r where "run [ex, ''--bfile'', outp, ''--recode'', ''vcf'', ''bgz'', ''--out'', outp] (fsys w3)
        = (r, fsys w')"
      by (auto simp add: vcf_cmd_def)
    then show ?thesis by (rule ek [unfolded export_keeps_bim_def, rule_format])
  qed
  then show ?thesis using clean3 by blast
qed

text \<open>
  C1 (amended): when the first merge attempt leaves a non-empty conflict file, the report
  \<open>merge\<close> returns has the correction applied and a conflict count equal to the number of
  lines of that file, duplicates counted each time. When moreover the external tool keeps
  its promises and neither the working directory nor a batch prefix holds a newline
  character, the final dataset contains none of the markers the file lists.
\<close>

theorem conflict_file_sets_report:
  assumes "after_first_attempt run plink_exec batch_prefixes keep_list work_dir w = Some w2"
      and "map_of (fsys w2) (missnp_of (Path work_dir)) = Some (File c)" and "c \<noteq> []"
      and "merge run plink_exec batch_prefixes keep_list out_prefix work_dir convert_to_vcf w = (Inr rep, w')"
  shows "correction_applied rep
         \<and> conflict_snp_count rep = int (length (text_lines c))
         \<and> (plink_contract run \<and> list_all nl_free (work_dir # batch_prefixes)
               \<longrightarrow> bim_ids (fsys w') out_prefix \<inter> set (text_lines c) = {})"
proof -
  let ?r0 = "\<lparr>batch_count = int (length batch_prefixes), conflict_snp_count = 0,
                    final_sample_count = 0, final_variant_count = 0,
                    correction_applied = False, output_prefix = []\<rparr>"
  obtain r3 w3 where cc: "check_conflicts run plink_exec batch_prefixes keep_list out_prefix (Path work_dir)
       (first_attempt_of (Path work_dir)) ?r0 w2 = (r3, w3)"
    by (cases "check_conflicts run plink_exec batch_prefixes keep_list out_prefix (Path work_dir)
       (first_attempt_of (Path work_dir)) ?r0 w2")
  from merge_after_first_attempt [OF assms(1), of out_prefix convert_to_vcf] assms(4) cc
  obtain report1 where r3: "r3 = Inr report1"
    and ce: "count_and_export run plink_exec out_prefix convert_to_vcf report1 w3 = (Inr rep, w')"
    by (cases r3) auto
  from check_conflicts_report [OF assms(2) [unfolded missnp_of_def] assms(3) cc [unfolded r3]]
  have "correction_applied report1 \<and> conflict_snp_count report1 = int (length (text_lines c))" .
  then have a: "correction_applied rep \<and> conflict_snp_count rep = int (length (text_lines c))"
    using count_and_export_log [OF ce] by simp
  have b: "bim_ids (fsys w') out_prefix \<inter> set (text_lines c) = {}"
    if "plink_contract run" "list_all nl_free (work_dir # batch_prefixes)"
    using corrected_merge_clean [OF that assms] .
  show ?thesis using a b by blast
qed

lemma bim_path_parts: "snd (Path (p @ ''.bim'')) \<noteq> []"
  by (rule path_name_Path_append(2)) auto

lemma bim_ids_put:
  "bim_ids (put (out @ ''.bim'') s t) p =
     (if Path (p @ ''.bim'') = Path (out @ ''.bim'') then line_ids s else bim_ids t p)"
  using bim_path_parts [of p]
  by (auto simp add: bim_ids_def put_def open_lines_def is_dir_def update_conv' line_ids_def)

lemma bim_ids_file:
  "map_of t (Path (p @ ''.bim'')) = Some (File c) \<Longrightarrow> bim_ids t p = line_ids c"
  using bim_path_parts [of p]
  by (simp add: bim_ids_def open_lines_def is_dir_def line_ids_def)

lemma line_ids_Nil: "line_ids [] = {}"
  by (simp add: line_ids_def)

lemma line_ids_rs1: "line_ids ''1 rs1 0 100 A G\<newline>'' = {''rs1''}"
  by (simp add: line_ids_def words_def)

lemma bim_in_outputs: "Path (out @ ''.bim'') \<in> set (make_bed_outputs out)"
  by (simp add: make_bed_outputs_def)

lemma demo_honours_exclude: "honours_exclude demo_plink"
  unfolding honours_exclude_def
proof (intro allI impI)
  fix ex bp keep out x t d t'
  assume r: "demo_plink [ex, ''--bfile'', bp, ''--keep'', keep, ''--make-bed'', ''--out'', out, ''--exclude'', x] t
               = (Inr (0, d), t')"
  let ?s = "if ''rs1'' \<in> listed t x then [] else ''1 rs1 0 100 A G\<newline>''"
  have t': "t' = put (out @ ''.bim'') ?s t"
    using r by (simp add: demo_plink_def)
  have s: "line_ids ?s \<inter> listed t x = {}"
    by (simp add: line_ids_Nil line_ids_rs1)
  have a: "bim_ids t' out \<inter> listed t x = {}"
    using s by (simp add: t' bim_ids_put)
  have b: "\<forall>p. bim_ids t' p \<inter> listed t x \<subseteq> bim_ids t p"
    using s by (auto simp add: t' bim_ids_put)
  have c: "Path x \<notin> set (make_bed_outputs out) \<longrightarrow> map_of t' (Path x) = map_of t (Path x)"
    using bim_in_outputs [of out] by (auto simp add: t' put_def update_conv')
  show "bim_ids t' out \<inter> listed t x = {}
        \<and> (\<forall>p. bim_ids t' p \<inter> listed t x \<subseteq> bim_ids t p)
        \<and> (Path x \<notin> set (make_bed_outputs out) \<longrightarrow> map_of t' (Path x) = map_of t (Path x))"
    using a b c by blast
qed

lemma demo_merges_listed: "merges_listed demo_plink"
  unfolding merges_listed_def
proof (intro allI impI)
  fix ex base l out t d t'
  assume r: "demo_plink [ex, ''--bfile'', base, ''--merge-list'', l, ''--make-bed'', ''--out'', out] t
               = (Inr (0, d), t')"
  let ?c = "case map_of t (Path (base @ ''.bim'')) of Some (File c) \<Rightarrow> c | _ \<Rightarrow> []"
  have t': "t' = put (out @ ''.bim'') ?c t"
    using r by (simp add: demo_plink_def split: if_splits)
  have "line_ids ?c \<subseteq> bim_ids t base"
    by (auto simp add: line_ids_Nil bim_ids_file split: option.splits node.splits)
  then have "bim_ids t' out \<subseteq> bim_ids t base"
    by (simp add: t' bim_ids_put)
  then show "bim_ids t' out \<subseteq> bim_ids t base \<union> (\<Union>p\<in>listed t l. bim_ids t p)"
    by blast
qed

lemma demo_export_keeps_bim: "export_keeps_bim demo_plink"
  by (simp add: export_keeps_bim_def demo_plink_def)

lemma demo_plink_contract: "plink_contract demo_plink"
  by (simp add: plink_contract_def demo_honours_exclude demo_merges_listed demo_export_keeps_bim)

theorem conflict_file_sets_report_witness:
  "after_first_attempt demo_plink ''plink'' [''data/b1'', ''data/b2''] ''keep.txt'' ''work'' start_world
     = Some demo_attempt_world
   \<and> map_of (fsys demo_attempt_world) (missnp_of (Path ''work'')) = Some (File ''rs2\<newline>rs2\<newline>'')
   \<and> merge demo_plink ''plink'' [''data/b1'', ''data/b2''] ''keep.txt'' ''out/final'' ''work'' True start_world
     = (Inr demo_report, demo_world)
   \<and> plink_contract demo_plink
   \<and> list_all nl_free [''work'', ''data/b1'', ''data/b2'']
   \<and> correction_applied demo_report
   \<and> conflict_snp_count demo_report = int (length (text_lines ''rs2\<newline>rs2\<newline>''))
   \<and> bim_ids (fsys demo_world) ''out/final'' \<inter> set (text_lines ''rs2\<newline>rs2\<newline>'') = {}
   \<and> bim_ids (fsys demo_world) ''out/final'' = {''rs1''}"
proof -
  have h1: "after_first_attempt demo_plink ''plink'' [''data/b1'', ''data/b2''] ''keep.txt'' ''work'' start_world
     = Some demo_attempt_world"
    by code_simp
  have h2: "map_of (fsys demo_attempt_world) (missnp_of (Path ''work'')) = Some (File ''rs2\<newline>rs2\<newline>'')"
    by code_simp
  have h3: "''rs2\<newline>rs2\<newline>'' \<noteq> []"
    by simp
  have n: "list_all nl_free [''work'', ''data/b1'', ''data/b2'']"
    by (simp add: nl_free_def)
  have i: "bim_ids (fsys demo_world) ''out/final'' = {''rs1''}"
    by code_simp
  note t = conflict_file_sets_report [OF h1 h2 h3 demo_run]
  from t have t1: "correction_applied demo_report" by blast
  from t have t2: "conflict_snp_count demo_report = int (length (text_lines ''rs2\<newline>rs2\<newline>''))" by blast
  from t demo_plink_contract n
  have t3: "bim_ids (fsys demo_world) ''out/final'' \<inter> set (text_lines ''rs2\<newline>rs2\<newline>'') = {}"
    by blast
  show ?thesis
    using h1 h2 demo_run demo_plink_contract n t1 t2 t3 i by (simp only: simp_thms)
qed

text \<open>
  C1 as stated fails: a conflict file naming one marker on two lines gives a conflict
  count of 2, while it holds one distinct identifier.
\<close>

theorem conflict_count_distinct_counterexample:
  "map_option (\<lambda>w2. map_of (fsys w2) (missnp_of (Path ''work'')))
      (after_first_attempt demo_plink ''plink'' [''data/b1'', ''data/b2''] ''keep.txt'' ''work'' start_world)
     = Some (Some (File ''rs2\<newline>rs2\<newline>''))
   \<and> merge demo_plink ''plink'' [''data/b1'', ''data/b2''] ''keep.txt'' ''out/final'' ''work'' True start_world
     = (Inr demo_report, demo_world)
   \<and> conflict_snp_count demo_report = 2
   \<and> card (set (text_lines ''rs2\<newline>rs2\<newline>'')) = 1"
  by code_simp

section \<open>Transfer\<close>

lemma iterdir_dir: "is_dir t d \<Longrightarrow> iterdir t d = Inr (entries_of t d)"
  by (simp add: iterdir_def entries_of_def)

lemma demo_send:
  "send quiet_tool today ''delivery'' ''staging'' ''NBR030'' ''copy'' ''Du=rwx,Dgo=rx'' ''Fu=rw,Fgo=r''
      delivery_world = (Inr copied_report, copied_world)"
  by code_simp

text \<open>
  C4: once the source is a directory, the destination is in place and the files have been
  transferred, \<open>send\<close> returns a report and raises nothing, whether or not the counts agree:
  \<open>verified\<close> is true exactly when source and destination hold the same number of
  top-level regular files, and \<open>file_count\<close> is the destination's number.
\<close>

theorem send_reports_count_mismatch:
  assumes "is_dir (fsys w) (Path src_dir)"
      and "mkdir_p (fsys w) (dest_dir dest_root proj now) = Inr t0"
      and "transfer_files run meth (Path src_dir) (dest_dir dest_root proj now) chmod_dirs chmod_files
             (w\<lparr>fsys := t0\<rparr>) = (Inr u, w1)"
      and "is_dir (fsys w1) (Path src_dir)"
      and "is_dir (fsys w1) (dest_dir dest_root proj now)"
  shows "\<exists>rep. send run now src_dir dest_root proj meth chmod_dirs chmod_files w = (Inr rep, w1)
           \<and> verified rep = (length (top_files (fsys w1) (Path src_dir))
                              = length (top_files (fsys w1) (dest_dir dest_root proj now)))
           \<and> file_count rep = int (length (top_files (fsys w1) (dest_dir dest_root proj now)))"
  using assms
  by (simp add: send_def Let_def dest_dir_def iterdir_dir top_files_def)

theorem send_reports_count_mismatch_witness:
  "is_dir (fsys delivery_world) (Path ''delivery'')
   \<and> mkdir_p (fsys delivery_world) (dest_dir ''staging'' ''NBR030'' today) = Inr (fsys delivery_world)
   \<and> transfer_files quiet_tool ''copy'' (Path ''delivery'') (dest_dir ''staging'' ''NBR030'' today)
        ''Du=rwx,Dgo=rx'' ''Fu=rw,Fgo=r'' (delivery_world\<lparr>fsys := fsys delivery_world\<rparr>)
       = (Inr (), copied_world)
   \<and> send quiet_tool today ''delivery'' ''staging'' ''NBR030'' ''copy'' ''Du=rwx,Dgo=rx'' ''Fu=rw,Fgo=r''
        delivery_world = (Inr copied_report, copied_world)
   \<and> verified copied_report = (length (top_files (fsys copied_world) (Path ''delivery''))
                                = length (top_files (fsys copied_world) (dest_dir ''staging'' ''NBR030'' today)))
   \<and> length (top_files (fsys copied_world) (Path ''delivery'')) = 3
   \<and> file_count copied_report = 4
   \<and> \<not> verified copied_report"
proof -
  have h1: "is_dir (fsys delivery_world) (Path ''delivery'')"
    by code_simp
  have h2: "mkdir_p (fsys delivery_world) (dest_dir ''staging'' ''NBR030'' today) = Inr (fsys delivery_world)"
    by code_simp
  have h3: "transfer_files quiet_tool ''copy'' (Path ''delivery'') (dest_dir ''staging'' ''NBR030'' today)
        ''Du=rwx,Dgo=rx'' ''Fu=rw,Fgo=r'' (delivery_world\<lparr>fsys := fsys delivery_world\<rparr>)
       = (Inr (), copied_world)"
    by code_simp
  have h4: "is_dir (fsys copied_world) (Path ''delivery'')"
    by code_simp
  have h5: "is_dir (fsys copied_world) (dest_dir ''staging'' ''NBR030'' today)"
    by code_simp
  have n: "length (top_files (fsys copied_world) (Path ''delivery'')) = 3"
    by code_simp
  have r: "file_count copied_report = 4" "\<not> verified copied_report"
    by (simp_all add: copied_report_def)
  from send_reports_count_mismatch [OF h1 h2 h3 h4 h5]
  have "verified copied_report = (length (top_files (fsys copied_world) (Path ''delivery''))
          = length (top_files (fsys copied_world) (dest_dir ''staging'' ''NBR030'' today)))"
    by (simp add: demo_send)
  then show ?thesis using h1 h2 h3 n r demo_send by simp
qed

lemma digit_not_slash: "digit n \<noteq> CHR ''/''"
proof
  assume "digit n = CHR ''/''"
  then have "of_char (char_of (48 + n mod 10) :: char) = (of_char (CHR ''/'') :: nat)"
    by (simp add: digit_def)
  then show False by (simp add: of_char_of take_bit_eq_mod)
qed

lemma dec_no_slash: "CHR ''/'' \<notin> set (dec n)"
proof (induction n rule: dec.induct)
  case (1 n)
  show ?case
  proof (cases "n < 10")
    case True
    then show ?thesis using digit_not_slash [of n] by (subst dec.simps) auto
  next
    case False
    then show ?thesis using 1 digit_not_slash [of n] by (subst dec.simps) auto
  qed
qed

lemma dec_small: "n < 10 \<Longrightarrow> dec n = [digit n]"
  by (subst dec.simps) simp

lemma dec_large: "10 \<le> n \<Longrightarrow> dec n = dec (n div 10) @ [digit n]"
  by (subst dec.simps) simp

lemma dec_length: "1000 \<le> n \<Longrightarrow> n \<le> 9999 \<Longrightarrow> length (dec n) = 4"
proof -
  assume a: "1000 \<le> n" "n \<le> 9999"
  have 1: "10 \<le> n" using a by simp
  have 2: "10 \<le> n div 10" using a by simp
  have 3: "10 \<le> n div 10 div 10" using a by simp
  have 4: "n div 10 div 10 div 10 < 10" using a by simp
  show ?thesis
    by (simp add: dec_large [OF 1] dec_large [OF 2] dec_large [OF 3] dec_small [OF 4])
qed

lemma stamp_no_slash: "CHR ''/'' \<notin> set (fmt_Y now @ fmt_m now @ fmt_d now)"
  using digit_not_slash [symmetric] dec_no_slash by (simp add: fmt_Y_def fmt_m_def fmt_d_def)

lemma stamp_length:
  "1000 \<le> year now \<Longrightarrow> year now \<le> 9999 \<Longrightarrow> length (fmt_Y now @ fmt_m now @ fmt_d now) = 8"
  by (simp add: fmt_Y_def fmt_m_def fmt_d_def dec_length)

lemma not_absolute_append: "take 1 p \<noteq> ''/'' \<Longrightarrow> take 1 (p @ ''_Delivery_'' @ s) \<noteq> ''/''"
  by (cases p) auto

lemma mkdir_p_is_dir: "mkdir_p t p = Inr t0 \<Longrightarrow> is_dir t0 p"
  by (auto simp add: mkdir_p_def is_dir_def update_conv' split: if_splits)

lemma same_kinds_refl: "same_kinds t t"
  by (simp add: same_kinds_def)

lemma same_kinds_trans: "same_kinds t t1 \<Longrightarrow> same_kinds t1 t2 \<Longrightarrow> same_kinds t t2"
  by (simp add: same_kinds_def)

lemma same_kinds_dir: "same_kinds t t' \<Longrightarrow> (map_of t' p = Some Dir) = (map_of t p = Some Dir)"
  unfolding same_kinds_def by blast

lemma same_kinds_present: "same_kinds t t' \<Longrightarrow> map_of t p \<noteq> None \<Longrightarrow> map_of t' p \<noteq> None"
  unfolding same_kinds_def by blast

lemma same_kinds_is_file: "same_kinds t t' \<Longrightarrow> is_file t p \<Longrightarrow> is_file t' p"
proof -
  assume k: "same_kinds t t'" and f: "is_file t p"
  from f obtain c where c: "map_of t p = Some (File c)" and n: "snd p \<noteq> []"
    by (auto simp add: is_file_def split: option.splits node.splits)
  from c have "map_of t' p \<noteq> None" "map_of t' p \<noteq> Some Dir"
    using same_kinds_present [OF k, of p] same_kinds_dir [OF k, of p] by simp_all
  then obtain c' where "map_of t' p = Some (File c')"
    by (cases "map_of t' p") (auto intro: node.exhaust)
  then show ?thesis using n by (simp add: is_file_def)
qed

lemma same_kinds_is_file_back:
  "same_kinds t t' \<Longrightarrow> is_file t' p \<Longrightarrow> map_of t p \<noteq> None \<Longrightarrow> is_file t p"
proof -
  assume k: "same_kinds t t'" and f: "is_file t' p" and e: "map_of t p \<noteq> None"
  from f obtain c where c: "map_of t' p = Some (File c)" and n: "snd p \<noteq> []"
    by (auto simp add: is_file_def split: option.splits node.splits)
  from c have "map_of t p \<noteq> Some Dir"
    using same_kinds_dir [OF k, of p] by simp
  with e obtain c' where "map_of t p = Some (File c')"
    by (cases "map_of t p") (auto intro: node.exhaust)
  then show ?thesis using n by (simp add: is_file_def)
qed

lemma copy2_effect:
  assumes "copy2 t fp (joinpath dest (path_name fp)) = Inr t'"
  shows "\<exists>q c. q \<in> set (copy_targets dest fp) \<and> map_of t' = (map_of t)(q \<mapsto> File c)
           \<and> \<not> is_dir t q"
proof -
  let ?dst = "joinpath dest (path_name fp)"
  let ?real = "if is_dir t ?dst then joinpath ?dst (path_name fp) else ?dst"
  from assms obtain c where "t' = AList.update ?real (File c) t" and d: "\<not> is_dir t ?real"
    by (auto simp add: copy2_def Let_def split: option.splits if_splits node.splits)
  then have "map_of t' = (map_of t)(?real \<mapsto> File c)"
    by (simp add: update_conv')
  moreover have "?real \<in> set (copy_targets dest fp)"
    by (simp add: copy_targets_def)
  ultimately show ?thesis using d by blast
qed

lemma copy2_same_kinds:
  assumes "copy2 t fp (joinpath dest (path_name fp)) = Inr t'"
  shows "same_kinds t t'"
proof -
  from copy2_effect [OF assms] obtain q c
    where m: "map_of t' = (map_of t)(q \<mapsto> File c)" and d: "\<not> is_dir t q"
    by blast
  from d have "map_of t q \<noteq> Some Dir" by (simp add: is_dir_def)
  with m show ?thesis by (simp add: same_kinds_def)
qed

lemma copy_loop_effect:
  assumes "copy_loop dest fps t = (Inr u, t')" and "\<forall>fp\<in>set fps. map_of t fp \<noteq> None"
  shows "same_kinds t t'
         \<and> (\<forall>fp\<in>set fps. is_file t fp \<longrightarrow> (\<exists>q\<in>set (copy_targets dest fp). is_file t' q))
         \<and> (\<forall>p. map_of t' p \<noteq> map_of t p
                \<longrightarrow> (\<exists>fp\<in>set fps. is_file t fp \<and> p \<in> set (copy_targets dest fp)))"
  using assms
proof (induction fps arbitrary: t)
  case Nil
  then show ?case by (simp add: same_kinds_refl)
next
  case (Cons fp fps)
  show ?case
  proof (cases "is_file t fp")
    case False
    with Cons.prems have "copy_loop dest fps t = (Inr u, t')" by simp
    from Cons.IH [OF this] Cons.prems(2) False show ?thesis by auto
  next
    case True
    with Cons.prems(1) obtain t1 where c: "copy2 t fp (joinpath dest (path_name fp)) = Inr t1"
      and l: "copy_loop dest fps t1 = (Inr u, t')"
      by (auto split: sum.splits)
    from copy2_effect [OF c] obtain q x
      where q: "q \<in> set (copy_targets dest fp)" and m: "map_of t1 = (map_of t)(q \<mapsto> File x)"
        and d: "\<not> is_dir t q"
      by blast
    have k1: "same_kinds t t1" by (rule copy2_same_kinds [OF c])
    have e1: "\<forall>fp\<in>set fps. map_of t1 fp \<noteq> None"
      using Cons.prems(2) same_kinds_present [OF k1] by simp
    note ih = Cons.IH [OF l e1]
    from ih have k2: "same_kinds t1 t'" by blast
    have k: "same_kinds t t'" by (rule same_kinds_trans [OF k1 k2])
    have fq: "is_file t1 q"
      using d m by (simp add: is_file_def is_dir_def)
    have a: "\<exists>q\<in>set (copy_targets dest fp'). is_file t' q" if "fp' \<in> set (fp # fps)" "is_file t fp'" for fp'
    proof (cases "fp' = fp")
      case True
      then show ?thesis using q fq same_kinds_is_file [OF k2] by blast
    next
      case False
      with that have "fp' \<in> set fps" "is_file t1 fp'" using same_kinds_is_file [OF k1] by auto
      with ih show ?thesis by blast
    qed
    have b: "\<exists>fp'\<in>set (fp # fps). is_file t fp' \<and> p \<in> set (copy_targets dest fp')"
      if "map_of t' p \<noteq> map_of t p" for p
    proof (cases "map_of t' p = map_of t1 p")
      case True
      with that have "p = q" using m by (auto split: if_splits)
      then show ?thesis using q \<open>is_file t fp\<close> by auto
    next
      case False
      with ih obtain fp' where f: "fp' \<in> set fps" "is_file t1 fp'" "p \<in> set (copy_targets dest fp')"
        by blast
      from f(1) Cons.prems(2) have "map_of t fp' \<noteq> None" by simp
      from same_kinds_is_file_back [OF k1 f(2) this] f show ?thesis by auto
    qed
    show ?thesis using k a b by blast
  qed
qed

lemma entries_present: "fp \<in> set (entries_of t d) \<Longrightarrow> map_of t fp \<noteq> None"
  by (auto simp add: entries_of_def map_of_eq_None_iff)

lemma copy_effect:
  assumes "copy src dest w = (Inr u, w')"
  shows "cmd_log w' = cmd_log w
         \<and> (\<forall>fp\<in>set (top_files (fsys w) src). \<exists>q\<in>set (copy_targets dest fp). is_file (fsys w') q)
         \<and> (\<forall>p. map_of (fsys w') p \<noteq> map_of (fsys w) p
                \<longrightarrow> (\<exists>fp\<in>set (top_files (fsys w) src). p \<in> set (copy_targets dest fp)))"
proof -
  from assms have d: "is_dir (fsys w) src"
    by (auto simp add: copy_def iterdir_def split: if_splits)
  with assms have l: "copy_loop dest (entries_of (fsys w) src) (fsys w) = (Inr u, fsys w')"
    and c: "cmd_log w' = cmd_log w"
    by (auto simp add: copy_def iterdir_dir split: prod.splits)
  have "\<forall>fp\<in>set (entries_of (fsys w) src). map_of (fsys w) fp \<noteq> None"
    using entries_present by blast
  note e = copy_loop_effect [OF l this]
  have a: "\<forall>fp\<in>set (top_files (fsys w) src). \<exists>q\<in>set (copy_targets dest fp). is_file (fsys w') q"
    unfolding top_files_def using e by auto
  have b: "\<forall>p. map_of (fsys w') p \<noteq> map_of (fsys w) p
                \<longrightarrow> (\<exists>fp\<in>set (top_files (fsys w) src). p \<in> set (copy_targets dest fp))"
  proof (intro allI impI)
    fix p
    assume "map_of (fsys w') p \<noteq> map_of (fsys w) p"
    with e obtain fp where "fp \<in> set (entries_of (fsys w) src)" "is_file (fsys w) fp"
      "p \<in> set (copy_targets dest fp)"
      by blast
    then show "\<exists>fp\<in>set (top_files (fsys w) src). p \<in> set (copy_targets dest fp)"
      by (intro bexI [of _ fp]) (simp_all add: top_files_def)
  qed
  show ?thesis using a b c by blast
qed

lemma rsync_effect:
  assumes "rsync run src dest chmod_dirs chmod_files w = (Inr u, w')"
  shows "cmd_log w' = cmd_log w @ [[''rsync'', ''-a'', ''--chmod='' @ chmod_dirs @ '','' @ chmod_files,
                                    path_str src @ ''/'', path_str dest @ ''/'']]
         \<and> (\<exists>d. run [''rsync'', ''-a'', ''--chmod='' @ chmod_dirs @ '','' @ chmod_files,
                        path_str src @ ''/'', path_str dest @ ''/''] (fsys w) = (Inr (0, d), fsys w'))"
  using assms
  by (auto simp add: rsync_def Let_def split: prod.splits sum.splits if_splits)


lemma demo_rsync:
  "send quiet_tool today ''delivery'' ''staging'' ''NBR030'' ''rsync'' ''Du=rwx,Dgo=rx'' ''Fu=rw,Fgo=r''
      delivery_world
     = (Inr \<lparr>source_dir = ''delivery'', destination_dir = ''staging/NBR030_Delivery_20261104'',
             file_count = 1, total_bytes = 5, verified = False, method = ''rsync''\<rparr>,
        delivery_world\<lparr>cmd_log := [[''rsync'', ''-a'', ''--chmod=Du=rwx,Dgo=rx,Fu=rw,Fgo=r'',
                                     ''delivery/'', ''staging/NBR030_Delivery_20261104/'']]\<rparr>)"
  by code_simp

text \<open>
  C8 (amended): for a project identifier that does not begin with \<open>/\<close>, the destination
  of \<open>send\<close> is the root's path extended by the components of \<open>P_Delivery_\<close> followed
  by the year, month and day of the current date (eight digits for the years 1000 to
  9999), and the report's \<open>destination_dir\<close> is that path as a string; when the identifier
  holds no \<open>/\<close> at all, the destination is the entry of that exact name directly inside the
  root. A call that returns a report has created that directory, parents included, and
  has transferred into it: with \<open>rsync\<close> it has run one command, \<open>rsync -a\<close> with the
  permission option, from the source with a trailing slash to the destination with a
  trailing slash, and the command has exited with status 0; with the copy method it has
  run no command, every top-level regular file of the source has a regular file at its
  name in the destination (or inside a directory of that name there), and no other path
  of the file system has changed. The directory exists when \<open>send\<close> returns.
\<close>

theorem send_destination:
  assumes "send run now src_dir dest_root proj meth chmod_dirs chmod_files w = (Inr rep, w')"
      and "take 1 proj \<noteq> ''/''"
  shows "destination_dir rep = path_str (dest_dir dest_root proj now)
         \<and> dest_dir dest_root proj now =
             (fst (Path dest_root),
              snd (Path dest_root) @ snd (Path (proj @ ''_Delivery_'' @ fmt_Y now @ fmt_m now @ fmt_d now)))
         \<and> (1000 \<le> year now \<and> year now \<le> 9999 \<longrightarrow> length (fmt_Y now @ fmt_m now @ fmt_d now) = 8)
         \<and> (CHR ''/'' \<notin> set proj \<longrightarrow>
              parent (dest_dir dest_root proj now) = Path dest_root
              \<and> path_name (dest_dir dest_root proj now)
                  = proj @ ''_Delivery_'' @ fmt_Y now @ fmt_m now @ fmt_d now)
         \<and> (\<exists>t0. mkdir_p (fsys w) (dest_dir dest_root proj now) = Inr t0
                \<and> is_dir t0 (dest_dir dest_root proj now)
                \<and> (meth = ''rsync'' \<longrightarrow>
                      cmd_log w' = cmd_log w @
                        [[''rsync'', ''-a'', ''--chmod='' @ chmod_dirs @ '','' @ chmod_files,
                          path_str (Path src_dir) @ ''/'', path_str (dest_dir dest_root proj now) @ ''/'']]
                      \<and> (\<exists>d. run [''rsync'', ''-a'', ''--chmod='' @ chmod_dirs @ '','' @ chmod_files,
                                    path_str (Path src_dir) @ ''/'',
                                    path_str (dest_dir dest_root proj now) @ ''/''] t0
                               = (Inr (0, d), fsys w')))
                \<and> (meth \<noteq> ''rsync'' \<longrightarrow>
                      cmd_log w' = cmd_log w
                      \<and> (\<forall>fp\<in>set (top_files t0 (Path src_dir)).
                            \<exists>q\<in>set (copy_targets (dest_dir dest_root proj now) fp). is_file (fsys w') q)
                      \<and> (\<forall>p. map_of (fsys w') p \<noteq> map_of t0 p \<longrightarrow>
                               (\<exists>fp\<in>set (top_files t0 (Path src_dir)).
                                   p \<in> set (copy_targets (dest_dir dest_root proj now) fp)))))
         \<and> is_dir (fsys w') (dest_dir dest_root proj now)"
proof -
  let ?stamp = "fmt_Y now @ fmt_m now @ fmt_d now"
  let ?n = "proj @ ''_Delivery_'' @ ?stamp"
  let ?dest = "dest_dir dest_root proj now"
  have a: "destination_dir rep = path_str ?dest"
    using assms(1)
    by (auto simp add: send_def Let_def dest_dir_def
        split: if_splits sum.splits prod.splits)
  have b: "is_dir (fsys w') ?dest"
    using assms(1)
    by (auto simp add: send_def Let_def dest_dir_def iterdir_def
        split: if_splits sum.splits prod.splits)
  have c: "?dest = (fst (Path dest_root), snd (Path dest_root) @ snd (Path ?n))"
    using not_absolute_append [OF assms(2), of ?stamp] by (simp add: dest_dir_def joinpath_def)
  have d: "1000 \<le> year now \<and> year now \<le> 9999 \<longrightarrow> length ?stamp = 8"
    using stamp_length [of now] by blast
  have e: "parent ?dest = Path dest_root \<and> path_name ?dest = ?n" if "CHR ''/'' \<notin> set proj"
  proof -
    have "CHR ''/'' \<notin> set ?n" using that stamp_no_slash [of now] by simp
    then have "split_slash ?n = [?n]" by (rule split_slash_no_slash)
    moreover have "?n \<noteq> []" "?n \<noteq> ''.''" by (simp_all add: append_eq_Cons_conv)
    ultimately have "snd (Path ?n) = [?n]" by (simp add: Path_def)
    then show ?thesis by (simp add: c parent_def path_name_def)
  qed
  from assms(1) obtain t0 u where mk: "mkdir_p (fsys w) ?dest = Inr t0"
    and tr: "transfer_files run meth (Path src_dir) ?dest chmod_dirs chmod_files (w\<lparr>fsys := t0\<rparr>)
               = (Inr u, w')"
    by (auto simp add: send_def Let_def dest_dir_def
        split: if_splits sum.splits prod.splits)
  have md: "is_dir t0 ?dest" by (rule mkdir_p_is_dir [OF mk])
  have r: "cmd_log w' = cmd_log w @
             [[''rsync'', ''-a'', ''--chmod='' @ chmod_dirs @ '','' @ chmod_files,
               path_str (Path src_dir) @ ''/'', path_str ?dest @ ''/'']]
           \<and> (\<exists>d. run [''rsync'', ''-a'', ''--chmod='' @ chmod_dirs @ '','' @ chmod_files,
                         path_str (Path src_dir) @ ''/'', path_str ?dest @ ''/''] t0
                    = (Inr (0, d), fsys w'))" if "meth = ''rsync''"
    using tr that rsync_effect [of run "Path src_dir" ?dest chmod_dirs chmod_files "w\<lparr>fsys := t0\<rparr>" u w']
    by (simp add: transfer_files_def)
  have k: "cmd_log w' = cmd_log w
           \<and> (\<forall>fp\<in>set (top_files t0 (Path src_dir)). \<exists>q\<in>set (copy_targets ?dest fp). is_file (fsys w') q)
           \<and> (\<forall>p. map_of (fsys w') p \<noteq> map_of t0 p \<longrightarrow>
                    (\<exists>fp\<in>set (top_files t0 (Path src_dir)). p \<in> set (copy_targets ?dest fp)))"
    if "meth \<noteq> ''rsync''"
    using tr that copy_effect [of "Path src_dir" ?dest "w\<lparr>fsys := t0\<rparr>" u w']
    by (simp add: transfer_files_def)
  show ?thesis using a b c d e mk md r k by blast
qed


theorem send_destination_witness:
  "send quiet_tool today ''delivery'' ''staging'' ''NBR030'' ''copy'' ''Du=rwx,Dgo=rx'' ''Fu=rw,Fgo=r''
      delivery_world = (Inr copied_report, copied_world)
   \<and> take 1 ''NBR030'' \<noteq> ''/''
   \<and> destination_dir copied_report = ''staging/NBR030_Delivery_20261104''
   \<and> is_dir (fsys copied_world) (dest_dir ''staging'' ''NBR030'' today)
   \<and> parent (dest_dir ''staging'' ''NBR030'' today) = Path ''staging''
   \<and> path_name (dest_dir ''staging'' ''NBR030'' today) = ''NBR030_Delivery_20261104''
   \<and> length (fmt_Y today @ fmt_m today @ fmt_d today) = 8
   \<and> mkdir_p (fsys delivery_world) (dest_dir ''staging'' ''NBR030'' today) = Inr (fsys delivery_world)
   \<and> top_files (fsys delivery_world) (Path ''delivery'')
       = [Path ''delivery/final.vcf.gz'', Path ''delivery/MANIFEST.tsv'', Path ''delivery/STATUS_SUMMARY.tsv'']
   \<and> list_all (\<lambda>fp. \<exists>q\<in>set (copy_targets (dest_dir ''staging'' ''NBR030'' today) fp).
                        is_file (fsys copied_world) q)
        (top_files (fsys delivery_world) (Path ''delivery''))
   \<and> is_file (fsys copied_world) (Path ''staging/NBR030_Delivery_20261104/final.vcf.gz'')
   \<and> cmd_log (snd (send quiet_tool today ''delivery'' ''staging'' ''NBR030'' ''rsync'' ''Du=rwx,Dgo=rx''
                      ''Fu=rw,Fgo=r'' delivery_world))
       = [[''rsync'', ''-a'', ''--chmod=Du=rwx,Dgo=rx,Fu=rw,Fgo=r'', ''delivery/'',
           ''staging/NBR030_Delivery_20261104/'']]"
proof -
  have p: "take 1 ''NBR030'' \<noteq> ''/''" by simp
  have s: "CHR ''/'' \<notin> set ''NBR030''" by simp
  have y: "1000 \<le> year today \<and> year today \<le> 9999" by (simp add: today_def)
  have c: "''copy'' \<noteq> ''rsync''" by simp
  have e: "path_str (dest_dir ''staging'' ''NBR030'' today) = ''staging/NBR030_Delivery_20261104''"
          "''NBR030'' @ ''_Delivery_'' @ fmt_Y today @ fmt_m today @ fmt_d today = ''NBR030_Delivery_20261104''"
    by code_simp+
  have mk: "mkdir_p (fsys delivery_world) (dest_dir ''staging'' ''NBR030'' today) = Inr (fsys delivery_world)"
    by code_simp
  have tf: "top_files (fsys delivery_world) (Path ''delivery'')
       = [Path ''delivery/final.vcf.gz'', Path ''delivery/MANIFEST.tsv'', Path ''delivery/STATUS_SUMMARY.tsv'']"
    by code_simp
  have f: "is_file (fsys copied_world) (Path ''staging/NBR030_Delivery_20261104/final.vcf.gz'')"
    by code_simp
  note t = send_destination [OF demo_send p]
  from t have t1: "destination_dir copied_report = path_str (dest_dir ''staging'' ''NBR030'' today)"
    by blast
  from t have t2: "is_dir (fsys copied_world) (dest_dir ''staging'' ''NBR030'' today)"
    by blast
  from t s have t3: "parent (dest_dir ''staging'' ''NBR030'' today) = Path ''staging''"
    by blast
  from t s have t4: "path_name (dest_dir ''staging'' ''NBR030'' today)
      = ''NBR030'' @ ''_Delivery_'' @ fmt_Y today @ fmt_m today @ fmt_d today"
    by blast
  from t y have t5: "length (fmt_Y today @ fmt_m today @ fmt_d today) = 8"
    by blast
  from t c obtain t0 where "mkdir_p (fsys delivery_world) (dest_dir ''staging'' ''NBR030'' today) = Inr t0"
    and "\<forall>fp\<in>set (top_files t0 (Path ''delivery'')).
            \<exists>q\<in>set (copy_targets (dest_dir ''staging'' ''NBR030'' today) fp). is_file (fsys copied_world) q"
    by blast
  with mk have t6: "list_all (\<lambda>fp. \<exists>q\<in>set (copy_targets (dest_dir ''staging'' ''NBR030'' today) fp).
                        is_file (fsys copied_world) q)
        (top_files (fsys delivery_world) (Path ''delivery''))"
    by (simp add: list_all_iff)
  note r = send_destination [OF demo_rsync p]
  from r have t7: "cmd_log (delivery_world\<lparr>cmd_log := [[''rsync'', ''-a'', ''--chmod=Du=rwx,Dgo=rx,Fu=rw,Fgo=r'',
                                     ''delivery/'', ''staging/NBR030_Delivery_20261104/'']]\<rparr>)
       = cmd_log delivery_world @ [[''rsync'', ''-a'', ''--chmod='' @ ''Du=rwx,Dgo=rx'' @ '','' @ ''Fu=rw,Fgo=r'',
            path_str (Path ''delivery'') @ ''/'', path_str (dest_dir ''staging'' ''NBR030'' today) @ ''/'']]"
    by blast
  have t8: "cmd_log (snd (send quiet_tool today ''delivery'' ''staging'' ''NBR030'' ''rsync'' ''Du=rwx,Dgo=rx''
                      ''Fu=rw,Fgo=r'' delivery_world))
       = [[''rsync'', ''-a'', ''--chmod=Du=rwx,Dgo=rx,Fu=rw,Fgo=r'', ''delivery/'',
           ''staging/NBR030_Delivery_20261104/'']]"
    using t7 by (simp add: demo_rsync)
  have t1': "destination_dir copied_report = ''staging/NBR030_Delivery_20261104''"
    using t1 e(1) by simp
  have t4': "path_name (dest_dir ''staging'' ''NBR030'' today) = ''NBR030_Delivery_20261104''"
    using t4 e(2) by simp
  show ?thesis
    using demo_send p t1' t2 t3 t4' t5 mk tf t6 f t8 by (simp only: simp_thms)
qed

text \<open>
  C8 as stated fails: a project identifier that begins with \<open>/\<close> replaces the root, and
  the destination, into which the files are copied, lies outside it.
\<close>

theorem send_destination_counterexample:
  "fst (send quiet_tool today ''delivery'' ''staging'' ''/x'' ''copy'' ''Du=rwx,Dgo=rx'' ''Fu=rw,Fgo=r''
          delivery_world)
     = Inr \<lparr>source_dir = ''delivery'', destination_dir = ''/x_Delivery_20261104'',
            file_count = 3, total_bytes = 10, verified = True, method = ''copy''\<rparr>
   \<and> is_file (fsys (snd (send quiet_tool today ''delivery'' ''staging'' ''/x'' ''copy'' ''Du=rwx,Dgo=rx''
                           ''Fu=rw,Fgo=r'' delivery_world)))
        (Path ''/x_Delivery_20261104/final.vcf.gz'')
   \<and> Path ''/x_Delivery_20261104'' \<noteq> Path (''staging'' @ ''/'' @ ''/x'' @ ''_Delivery_'' @ ''20261104'')
   \<and> \<not> is_under (Path ''staging'') (Path ''/x_Delivery_20261104'')"
  by code_simp

section \<open>The manifest\<close>

lemma str_in_iff: "str_in pat s \<longleftrightarrow> (\<exists>a b. s = a @ pat @ b)"
proof (induction s)
  case Nil
  then show ?case by auto
next
  case (Cons c cs)
  show ?case
  proof
    assume "str_in pat (c # cs)"
    then consider "take (length pat) (c # cs) = pat" | "str_in pat cs" by auto
    then show "\<exists>a b. c # cs = a @ pat @ b"
    proof cases
      case 1
      then have "c # cs = [] @ pat @ drop (length pat) (c # cs)"
        by (metis append_Nil append_take_drop_id)
      then show ?thesis by blast
    next
      case 2
      then obtain a b where "cs = a @ pat @ b" using Cons.IH by auto
      then have "c # cs = (c # a) @ pat @ b" by simp
      then show ?thesis by blast
    qed
  next
    assume "\<exists>a b. c # cs = a @ pat @ b"
    then obtain a b where ab: "c # cs = a @ pat @ b" by auto
    show "str_in pat (c # cs)"
    proof (cases a)
      case Nil
      then have "take (length pat) (c # cs) = pat" using ab by simp
      then show ?thesis by simp
    next
      case (Cons x xs)
      then have "cs = xs @ pat @ b" using ab by simp
      then have "str_in pat cs" using Cons.IH by auto
      then show ?thesis by simp
    qed
  qed
qed

lemma compute_checksums_file:
  assumes "is_file t p" and "Path (path_str p) = p"
  shows "compute_checksums md5_hex sha256_hex t (path_str p) = Inr (checksum_of md5_hex sha256_hex t p)"
  using assms
  by (auto simp add: compute_checksums_def checksum_of_def file_bytes_def is_file_def is_dir_def Let_def
      split: option.splits node.splits)

lemma generate_loop_result:
  assumes "\<forall>p\<in>set ps. Path (path_str p) = p"
  shows "generate_loop md5_hex sha256_hex exclude t ps acc =
           Inr (acc @ map (checksum_of md5_hex sha256_hex t)
                  (filter (\<lambda>p. is_file t p \<and> \<not> (\<exists>pat\<in>exclude. str_in pat (path_name p))) ps))"
  using assms
proof (induction ps arbitrary: acc)
  case Nil
  then show ?case by simp
next
  case (Cons p ps)
  then show ?case by (simp add: compute_checksums_file)
qed

lemma entries_wf: "wf_fs t \<Longrightarrow> p \<in> set (entries_of t d) \<Longrightarrow> Path (path_str p) = p"
  by (auto simp add: wf_fs_def entries_of_def list_all_iff)

lemma demo_generate:
  "generate toy_md5 toy_sha256 today ''delivery'' ''NBR030'' None (fsys delivery_world) = Inr demo_manifest"
  by code_simp

text \<open>
  C7: for a delivery directory of a well-formed file system, \<open>generate\<close> returns a manifest
  whose records are those of the directory's entries, sorted, that are regular files and
  whose name contains none of the tokens as a substring; so every such file has a record,
  and no file whose name contains a token, no directory and no nested file has one. The
  tokens are \<open>MANIFEST\<close> and \<open>STATUS\<close> when the argument is absent or the empty list, and
  the caller's patterns otherwise.
\<close>

theorem generate_lists_regular_unreserved_files:
  assumes "is_dir t (Path delivery_dir)" and "wf_fs t"
      and "tokens = (case exclude_patterns of
                       None \<Rightarrow> {''MANIFEST'', ''STATUS''}
                     | Some ps \<Rightarrow> if ps = [] then {''MANIFEST'', ''STATUS''} else set ps)"
  shows "\<exists>m. generate md5_hex sha256_hex now delivery_dir proj exclude_patterns t = Inr m
           \<and> files m = map (checksum_of md5_hex sha256_hex t)
                (filter (\<lambda>p. is_file t p
                             \<and> \<not> (\<exists>pat\<in>tokens. \<exists>a b. path_name p = a @ pat @ b))
                   (sort_key path_parts (entries_of t (Path delivery_dir))))
           \<and> set (map filename (files m)) =
               {path_name p |p. p \<in> set (entries_of t (Path delivery_dir)) \<and> is_file t p
                   \<and> \<not> (\<exists>pat\<in>tokens. \<exists>a b. path_name p = a @ pat @ b)}"
proof -
  let ?es = "sort_key path_parts (entries_of t (Path delivery_dir))"
  let ?keep = "\<lambda>p. is_file t p \<and> \<not> (\<exists>pat\<in>tokens. \<exists>a b. path_name p = a @ pat @ b)"
  have tk: "exclude_set exclude_patterns = tokens"
    using assms(3) by (simp add: exclude_set_def split: option.splits)
  have wf: "\<forall>p\<in>set ?es. Path (path_str p) = p"
    using entries_wf [OF assms(2)] by simp
  let ?m = "\<lparr>project_id = proj,
             delivery_date = fmt_Y now @ ''-'' @ fmt_m now @ ''-'' @ fmt_d now,
             files = map (checksum_of md5_hex sha256_hex t) (filter ?keep ?es), metadata = []\<rparr>"
  have g: "generate md5_hex sha256_hex now delivery_dir proj exclude_patterns t = Inr ?m"
    using assms(1)
    by (simp add: generate_def Let_def iterdir_dir generate_loop_result [OF wf] tk str_in_iff)
  have f: "files ?m = map (checksum_of md5_hex sha256_hex t) (filter ?keep ?es)"
    by simp
  have names: "set (map filename (files ?m)) =
      {path_name p |p. p \<in> set (entries_of t (Path delivery_dir)) \<and> ?keep p}"
    by (auto simp add: checksum_of_def)
  show ?thesis
    using g f names by blast
qed

lemma vcf_generate:
  "generate toy_md5 toy_sha256 today ''delivery'' ''NBR030'' (Some [''vcf'']) (fsys delivery_world)
     = Inr vcf_manifest"
  by code_simp

theorem generate_lists_regular_unreserved_files_witness:
  "is_dir (fsys delivery_world) (Path ''delivery'') \<and> wf_fs (fsys delivery_world)
   \<and> generate toy_md5 toy_sha256 today ''delivery'' ''NBR030'' None (fsys delivery_world) = Inr demo_manifest
   \<and> set (map filename (files demo_manifest)) =
       {path_name p |p. p \<in> set (entries_of (fsys delivery_world) (Path ''delivery''))
           \<and> is_file (fsys delivery_world) p
           \<and> \<not> (\<exists>pat\<in>{''MANIFEST'', ''STATUS''}. \<exists>a b. path_name p = a @ pat @ b)}
   \<and> map filename (files demo_manifest) = [''final.vcf.gz'']
   \<and> generate toy_md5 toy_sha256 today ''delivery'' ''NBR030'' (Some [''vcf'']) (fsys delivery_world)
       = Inr vcf_manifest
   \<and> set (map filename (files vcf_manifest)) =
       {path_name p |p. p \<in> set (entries_of (fsys delivery_world) (Path ''delivery''))
           \<and> is_file (fsys delivery_world) p
           \<and> \<not> (\<exists>pat\<in>{''vcf''}. \<exists>a b. path_name p = a @ pat @ b)}
   \<and> map filename (files vcf_manifest) = [''MANIFEST.tsv'', ''STATUS_SUMMARY.tsv'']"
proof -
  have h1: "is_dir (fsys delivery_world) (Path ''delivery'')" by code_simp
  have h2: "wf_fs (fsys delivery_world)" by code_simp
  have k1: "{''MANIFEST'', ''STATUS''} = (case None :: string list option of
                       None \<Rightarrow> {''MANIFEST'', ''STATUS''}
                     | Some ps \<Rightarrow> if ps = [] then {''MANIFEST'', ''STATUS''} else set ps)"
    by simp
  have k2: "{''vcf''} = (case Some [''vcf''] of
                       None \<Rightarrow> {''MANIFEST'', ''STATUS''}
                     | Some ps \<Rightarrow> if ps = [] then {''MANIFEST'', ''STATUS''} else set ps)"
    by simp
  have f1: "map filename (files demo_manifest) = [''final.vcf.gz'']" by (simp add: demo_manifest_def)
  have f2: "map filename (files vcf_manifest) = [''MANIFEST.tsv'', ''STATUS_SUMMARY.tsv'']"
    by (simp add: vcf_manifest_def)
  from generate_lists_regular_unreserved_files [OF h1 h2 k1, of toy_md5 toy_sha256 today "''NBR030''"]
  obtain m where m: "generate toy_md5 toy_sha256 today ''delivery'' ''NBR030'' None (fsys delivery_world) = Inr m"
    and n: "set (map filename (files m)) =
       {path_name p |p. p \<in> set (entries_of (fsys delivery_world) (Path ''delivery''))
           \<and> is_file (fsys delivery_world) p
           \<and> \<not> (\<exists>pat\<in>{''MANIFEST'', ''STATUS''}. \<exists>a b. path_name p = a @ pat @ b)}"
    by blast
  from m have m1: "m = demo_manifest" by (simp add: demo_generate)
  from generate_lists_regular_unreserved_files [OF h1 h2 k2, of toy_md5 toy_sha256 today "''NBR030''"]
  obtain m' where m': "generate toy_md5 toy_sha256 today ''delivery'' ''NBR030'' (Some [''vcf''])
        (fsys delivery_world) = Inr m'"
    and n': "set (map filename (files m')) =
       {path_name p |p. p \<in> set (entries_of (fsys delivery_world) (Path ''delivery''))
           \<and> is_file (fsys delivery_world) p
           \<and> \<not> (\<exists>pat\<in>{''vcf''}. \<exists>a b. path_name p = a @ pat @ b)}"
    by blast
  from m' have m2: "m' = vcf_manifest" by (simp add: vcf_generate)
  from n m1 have n1: "set (map filename (files demo_manifest)) =
       {path_name p |p. p \<in> set (entries_of (fsys delivery_world) (Path ''delivery''))
           \<and> is_file (fsys delivery_world) p
           \<and> \<not> (\<exists>pat\<in>{''MANIFEST'', ''STATUS''}. \<exists>a b. path_name p = a @ pat @ b)}"
    by (simp only:)
  from n' m2 have n2: "set (map filename (files vcf_manifest)) =
       {path_name p |p. p \<in> set (entries_of (fsys delivery_world) (Path ''delivery''))
           \<and> is_file (fsys delivery_world) p
           \<and> \<not> (\<exists>pat\<in>{''vcf''}. \<exists>a b. path_name p = a @ pat @ b)}"
    by (simp only:)
  show ?thesis
    using h1 h2 demo_generate n1 f1 vcf_generate n2 f2 by (simp only: simp_thms)
qed

text \<open>
  C9: the empty list of patterns gives the same manifest as no argument at all, and the
  same two default tokens.
\<close>

theorem empty_exclude_list_is_default:
  "generate md5_hex sha256_hex now delivery_dir proj (Some []) t
     = generate md5_hex sha256_hex now delivery_dir proj None t
   \<and> exclude_set (Some []) = {''MANIFEST'', ''STATUS''}"
  by (simp add: generate_def exclude_set_def)

theorem empty_exclude_list_is_default_witness:
  "generate toy_md5 toy_sha256 today ''delivery'' ''NBR030'' (Some []) (fsys delivery_world) = Inr demo_manifest
   \<and> exclude_set (Some []) = {''MANIFEST'', ''STATUS''}"
  using empty_exclude_list_is_default [of toy_md5 toy_sha256 today "''delivery''" "''NBR030''" "fsys delivery_world"]
    demo_generate by simp

end
